theory Spec2Isabelle
  imports Complex_Main
begin

section \<open>JavaScript values\<close>

text \<open>
  The values the plugin handles are the results of \<open>JSON.parse\<close> on HTTP bodies
  and the results of reading properties of such values. \<open>JUndefined\<close> is
  JavaScript's \<open>undefined\<close>: it never comes out of \<open>JSON.parse\<close>, only
  out of reading a property that is not there. A number is taken at the exact value of
  its literal (rounding to a double is not modelled); the plugin never computes with
  one. An object is the list of its properties in source order.
\<close>

datatype json =
    JUndefined
  | JNull
  | JBool bool
  | JNum rat
  | JStr string
  | JArr "json list"
  | JObj "(string \<times> json) list"

text \<open>What a condition, \<open>||\<close> and \<open>!\<close> make of a value (ToBoolean).\<close>

fun truthy :: "json \<Rightarrow> bool" where
  "truthy JUndefined = False"
| "truthy JNull = False"
| "truthy (JBool b) = b"
| "truthy (JNum n) = (n \<noteq> 0)"
| "truthy (JStr s) = (s \<noteq> [])"
| "truthy (JArr xs) = True"
| "truthy (JObj kvs) = True"

text \<open>\<open>a || b\<close>: the left operand when it is truthy, the right one otherwise.\<close>

definition js_or :: "json \<Rightarrow> json \<Rightarrow> json" where
  "js_or a b = (if truthy a then a else b)"

text \<open>
  Exceptions and rejected promises. \<open>Error msg\<close> is \<open>new Error(msg)\<close>, the
  only error the plugin throws itself; \<open>TypeError\<close> is a property read on
  \<open>null\<close> or \<open>undefined\<close>; \<open>SyntaxError\<close> is \<open>response.json()\<close>
  on a body that is not JSON; \<open>FetchFailed\<close> is a rejected \<open>fetch\<close>
  (no connection).
\<close>

datatype js_error = Error string | TypeError | SyntaxError | FetchFailed

definition bind :: "js_error + 'a \<Rightarrow> ('a \<Rightarrow> js_error + 'b) \<Rightarrow> js_error + 'b" where
  "bind r f = (case r of Inl e \<Rightarrow> Inl e | Inr v \<Rightarrow> f v)"

text \<open>
  \<open>v.k\<close> for the property names the plugin reads (\<open>status\<close>, \<open>success\<close>,
  \<open>outcome\<close>, \<open>data\<close>, \<open>next_steps\<close>, \<open>reason\<close>, \<open>call_sid\<close>,
  \<open>to\<close>, \<open>from\<close>), none of which a prototype defines: on \<open>null\<close> and
  \<open>undefined\<close> the read throws, on an object it gives the property (the last one
  of that name, as \<open>JSON.parse\<close> keeps it) or \<open>undefined\<close>, on any other
  value \<open>undefined\<close>.
\<close>

definition get_prop :: "json \<Rightarrow> string \<Rightarrow> js_error + json" where
  "get_prop v k =
     (case v of
        JUndefined \<Rightarrow> Inl TypeError
      | JNull \<Rightarrow> Inl TypeError
      | JObj kvs \<Rightarrow> (case map_of (rev kvs) k of Some x \<Rightarrow> Inr x | None \<Rightarrow> Inr JUndefined)
      | _ \<Rightarrow> Inr JUndefined)"

text \<open>
  On optional strings (configuration entries, environment variables, tool parameters;
  \<open>None\<close> is \<open>undefined\<close>): \<open>a || b\<close> with a string on the right, and
  \<open>a || b\<close> with another optional string on the right.
\<close>

definition or_str :: "string option \<Rightarrow> string \<Rightarrow> string" where
  "or_str a b = (case a of None \<Rightarrow> b | Some s \<Rightarrow> (if s = [] then b else s))"

definition or_opt :: "string option \<Rightarrow> string option \<Rightarrow> string option" where
  "or_opt a b = (case a of None \<Rightarrow> b | Some s \<Rightarrow> (if s = [] then b else Some s))"

definition opt_json :: "string option \<Rightarrow> json" where
  "opt_json a = (case a of None \<Rightarrow> JUndefined | Some s \<Rightarrow> JStr s)"

section \<open>HTTP through fetch\<close>

text \<open>
  A template literal is kept as its pieces: the literal text and the interpolated
  values, in order. The conversion of an interpolated value to text is the runtime's and
  is not modelled.
\<close>

datatype seg = Lit string | Hole json

text \<open>
  The arguments of one \<open>fetch\<close> call. The body is the value handed to
  \<open>JSON.stringify\<close>; the poll request names no method and no body, so it is a
  \<open>GET\<close> without one.
\<close>

record http_request =
  req_method :: string
  req_url :: "seg list"
  req_headers :: "(string \<times> json) list"
  req_body :: "json option"

text \<open>
  A response as the plugin reads it: \<open>response.ok\<close>, \<open>response.text()\<close>, and
  \<open>response.json()\<close>, which is \<open>None\<close> when the body is not JSON and the
  call rejects.
\<close>

record http_response =
  resp_ok :: bool
  resp_text :: string
  resp_json :: "json option"

datatype fetch_outcome = Rejected | Resolved http_response

section \<open>The tool that returns at once\<close>

text \<open>
  \<open>advanced_voice_call\<close> as registered by \<open>register(api)\<close> of plugin version
  1.1.0 (index.js, lines 102 to 161) and as listed in \<open>tools\<close> by the first
  version 1.0.0 (unnamed/part_000, lines 123 to 178): parameters \<open>to\<close>
  (required), \<open>message\<close> and \<open>mode\<close>, all strings.
\<close>

record call_params =
  cp_to :: string
  cp_message :: "string option"
  cp_mode :: "string option"

record call_result =
  cr_success :: bool
  cr_callSid :: json
  cr_to :: json
  cr_from :: json
  cr_status :: json

type_synonym process_env = "string \<rightharpoonup> string"

text \<open>
  \<open>const PORT = process.env.PORT || "8001"\<close> (index.js, line 31): evaluated once,
  when \<open>register(api)\<close> runs, on the environment of that moment,
  \<open>registerEnv\<close>.
\<close>

definition PORT :: "process_env \<Rightarrow> string" where
  "PORT registerEnv = or_str (registerEnv ''PORT'') ''8001''"

text \<open>
  The request of \<open>execute\<close>. \<open>VOICE_API_KEY\<close> is read at each call, on the
  environment of the call, \<open>env\<close>; the port is the constant fixed at registration.
\<close>

definition execute_request :: "process_env \<Rightarrow> process_env \<Rightarrow> call_params \<Rightarrow> http_request" where
  "execute_request registerEnv env params =
     (let apiKey = or_str (env ''VOICE_API_KEY'') ''''
      in \<lparr> req_method = ''POST'',
           req_url = [Lit ''http://localhost:'', Hole (JStr (PORT registerEnv)),
                      Lit ''/call/number/'', Hole (JStr (cp_to params))],
           req_headers = [(''Content-Type'', JStr ''application/json''),
                          (''X-Voice-Key'', JStr apiKey)],
           req_body = Some (JObj [(''message'', JStr (or_str (cp_message params) '''')),
                                  (''agent_timezone'', JStr ''America/Los_Angeles'')]) \<rparr>)"

text \<open>
  What follows the \<open>fetch\<close> is the same in both versions: a response that is not
  ok is thrown as an error carrying its text, an ok one is parsed and its fields
  copied.
\<close>

definition call_outcome :: "fetch_outcome \<Rightarrow> js_error + call_result" where
  "call_outcome fo =
     (case fo of
        Rejected \<Rightarrow> Inl FetchFailed
      | Resolved response \<Rightarrow>
          if \<not> resp_ok response then Inl (Error (''Voice call failed: '' @ resp_text response))
          else (case resp_json response of
                  None \<Rightarrow> Inl SyntaxError
                | Some result \<Rightarrow>
                    bind (get_prop result ''call_sid'') (\<lambda>call_sid.
                    bind (get_prop result ''to'') (\<lambda>to.
                    bind (get_prop result ''from'') (\<lambda>frm.
                    bind (get_prop result ''status'') (\<lambda>status.
                      Inr \<lparr> cr_success = True, cr_callSid = call_sid, cr_to = to,
                            cr_from = frm, cr_status = status \<rparr>))))))"

text \<open>
  \<open>execute(params)\<close>: the request it sends and what it returns or throws. The
  network is the function \<open>net\<close> from the request to what \<open>fetch\<close> gives.
\<close>

definition execute ::
  "process_env \<Rightarrow> process_env \<Rightarrow> (http_request \<Rightarrow> fetch_outcome) \<Rightarrow> call_params
     \<Rightarrow> http_request \<times> (js_error + call_result)" where
  "execute registerEnv env net params =
     (let to = cp_to params; message = cp_message params;
          mode = (case cp_mode params of None \<Rightarrow> ''outbound'' | Some m \<Rightarrow> m);
          req = execute_request registerEnv env params
      in (req, call_outcome (net req)))"

section \<open>The plugin's configuration\<close>

text \<open>
  The configuration object given to \<open>advancedVoicePlugin(config)\<close> (index.js,
  lines 200 to 219), with the entries its \<open>configSchema\<close> declares and
  \<open>onLoad\<close> or a tool reads, at the types the schema gives them (the port a
  natural number); \<open>None\<close> is an entry that is absent or \<open>null\<close>.
  (\<open>provider\<close>, \<open>logging\<close> and \<open>prompts\<close> are copied into
  \<open>pluginConfig\<close> and never read again.)
\<close>

record twilio_config =
  accountSid :: "string option"
  authToken :: "string option"
  fromNumber :: "string option"

record openai_config =
  openai_apiKey :: "string option"

record security_config =
  challenge :: "string option"
  apiKey :: "string option"

record config =
  cfg_enabled :: "bool option"
  cfg_port :: "nat option"
  cfg_twilio :: "twilio_config option"
  cfg_openai :: "openai_config option"
  cfg_security :: "security_config option"
  cfg_apiKey :: "string option"

record plugin_config =
  pc_enabled :: bool
  pc_port :: nat
  pc_twilio :: twilio_config
  pc_openai :: openai_config
  pc_security :: security_config

text \<open>
  \<open>const pluginConfig = { enabled: config.enabled ?? true, ... }\<close>. The fallback
  for \<open>security\<close> is built only when \<open>config.security\<close> is absent, so the
  \<open>config.security?.challenge\<close> inside it is \<open>undefined\<close> there.
\<close>

definition advancedVoicePlugin :: "process_env \<Rightarrow> config \<Rightarrow> plugin_config" where
  "advancedVoicePlugin env config =
     \<lparr> pc_enabled = (case cfg_enabled config of None \<Rightarrow> True | Some b \<Rightarrow> b),
       pc_port = (case cfg_port config of None \<Rightarrow> 8001 | Some p \<Rightarrow> p),
       pc_twilio = (case cfg_twilio config of
                      None \<Rightarrow> \<lparr> accountSid = None, authToken = None, fromNumber = None \<rparr>
                    | Some t \<Rightarrow> t),
       pc_openai = (case cfg_openai config of
                      None \<Rightarrow> \<lparr> openai_apiKey = None \<rparr>
                    | Some oa \<Rightarrow> oa),
       pc_security = (case cfg_security config of
                        None \<Rightarrow>
                          \<lparr> challenge =
                              or_opt (case cfg_security config of None \<Rightarrow> None
                                      | Some s \<Rightarrow> challenge s)
                                     (env ''SECURITY_CHALLENGE''),
                            apiKey = or_opt (cfg_apiKey config) (env ''VOICE_API_KEY'') \<rparr>
                      | Some s \<Rightarrow> s) \<rparr>"

section \<open>onLoad\<close>

text \<open>\<open>String(n)\<close> for a natural number below \<open>10^21\<close>: its decimal numeral.\<close>

fun show_nat :: "nat \<Rightarrow> string" where
  "show_nat n =
     (if n < 10 then [char_of (48 + n)]
      else show_nat (n div 10) @ [char_of (48 + n mod 10)])"

declare show_nat.simps [simp del]

datatype log_entry = LogInfo string | LogError string

text \<open>The arguments of \<open>spawn(command, args, {cwd, env, ...})\<close>.\<close>

record spawn_call =
  sp_command :: string
  sp_args :: "string list"
  sp_cwd :: string
  sp_env :: process_env

text \<open>
  The environment handed to the watchdog and, through it, to the voice server:
  \<open>process.env\<close> with the configuration written over it.
\<close>

definition childEnv :: "plugin_config \<Rightarrow> process_env \<Rightarrow> process_env" where
  "childEnv pc env =
     env(''PORT'' \<mapsto> show_nat (pc_port pc),
         ''TWILIO_ACCOUNT_SID'' \<mapsto> or_str (accountSid (pc_twilio pc)) '''',
         ''TWILIO_AUTH_TOKEN'' \<mapsto> or_str (authToken (pc_twilio pc)) '''',
         ''TWILIO_NUMBER'' \<mapsto> or_str (fromNumber (pc_twilio pc)) '''',
         ''OPENAI_API_KEY'' \<mapsto> or_str (openai_apiKey (pc_openai pc)) '''',
         ''VOICE_API_KEY'' \<mapsto> or_str (apiKey (pc_security pc)) '''',
         ''SECURITY_CHALLENGE'' \<mapsto> or_str (challenge (pc_security pc)) '''',
         ''GATEWAY_URL'' \<mapsto> ''http://127.0.0.1:18789/v1/chat/completions'',
         ''GATEWAY_TOKEN'' \<mapsto> or_str (env ''OPENCLAW_TOKEN'') '''')"

text \<open>
  \<open>onLoad(ctx)\<close> of the version that passes the configuration on (index.js, lines
  229 to 292): the lines it logs and the process it spawns, if any. \<open>dir\<close> is \<open>__dirname\<close>,
  \<open>watchdogPath\<close> is \<open>join(__dirname, 'watchdog.py')\<close> and
  \<open>watchdogExists\<close> is \<open>existsSync(watchdogPath)\<close>. The handlers it
  installs on the child's output run later and are not part of the call.
\<close>

definition onLoad ::
  "plugin_config \<Rightarrow> process_env \<Rightarrow> string \<Rightarrow> string \<Rightarrow> bool
     \<Rightarrow> log_entry list \<times> spawn_call option" where
  "onLoad pc env dir watchdogPath watchdogExists =
     (if \<not> pc_enabled pc then
        ([LogInfo ''[advanced-voice] Plugin loaded'',
          LogInfo ''[advanced-voice] Plugin disabled in config''], None)
      else if \<not> watchdogExists then
        ([LogInfo ''[advanced-voice] Plugin loaded'',
          LogError ''[advanced-voice] watchdog.py not found''], None)
      else
        ([LogInfo ''[advanced-voice] Plugin loaded'',
          LogInfo ''[advanced-voice] Starting watchdog (tunnel + server manager)'',
          LogInfo ''[advanced-voice] Watchdog started (managing tunnel + server)''],
         Some \<lparr> sp_command = ''python3'', sp_args = [''-u'', watchdogPath],
                sp_cwd = dir, sp_env = childEnv pc env \<rparr>))"

section \<open>The first version's tool handler\<close>

text \<open>
  \<open>handler(params, ctx)\<close> of the first version 1.0.0 (unnamed/part_000, lines
  147 to 176): as \<open>execute\<close>, with the port and the key taken from
  \<open>pluginConfig\<close>.
\<close>

definition immediate_request :: "plugin_config \<Rightarrow> call_params \<Rightarrow> http_request" where
  "immediate_request pc params =
     \<lparr> req_method = ''POST'',
       req_url = [Lit ''http://localhost:'', Hole (JNum (of_nat (pc_port pc))),
                  Lit ''/call/number/'', Hole (JStr (cp_to params))],
       req_headers = [(''Content-Type'', JStr ''application/json''),
                      (''X-Voice-Key'', opt_json (apiKey (pc_security pc)))],
       req_body = Some (JObj [(''message'', JStr (or_str (cp_message params) '''')),
                              (''agent_timezone'', JStr ''America/Los_Angeles'')]) \<rparr>"

definition immediate_handler ::
  "plugin_config \<Rightarrow> (http_request \<Rightarrow> fetch_outcome) \<Rightarrow> call_params
     \<Rightarrow> http_request \<times> (js_error + call_result)" where
  "immediate_handler pc net params =
     (let to = cp_to params; message = cp_message params;
          mode = (case cp_mode params of None \<Rightarrow> ''outbound'' | Some m \<Rightarrow> m);
          req = immediate_request pc params
      in (req, call_outcome (net req)))"

section \<open>The mission tool\<close>

text \<open>
  \<open>advanced_voice_call\<close> of the version that waits for the outcome (index.js,
  lines 313 to 410): parameters \<open>to\<close> and \<open>mission\<close> (both required)
  and \<open>role\<close>, all strings.
\<close>

record mission_params =
  mp_to :: string
  mp_mission :: string
  mp_role :: "string option"

record mission_result =
  mr_success :: json
  mr_callSid :: json
  mr_to :: json
  mr_outcome :: json
  mr_data :: json
  mr_next_steps :: json


definition MAX_WAIT_MS :: nat where
  "MAX_WAIT_MS = 5 * 60 * 1000"

definition POLL_MS :: nat where
  "POLL_MS = 5000"

definition initiate_request :: "plugin_config \<Rightarrow> mission_params \<Rightarrow> http_request" where
  "initiate_request pc params =
     (let to = mp_to params; mission = mp_mission params;
          role = (case mp_role params of None \<Rightarrow> ''personal assistant'' | Some r \<Rightarrow> r)
      in \<lparr> req_method = ''POST'',
           req_url = [Lit ''http://localhost:'', Hole (JNum (of_nat (pc_port pc))),
                      Lit ''/call/number/'', Hole (JStr to)],
           req_headers = [(''Content-Type'', JStr ''application/json''),
                          (''X-Voice-Key'', opt_json (apiKey (pc_security pc)))],
           req_body = Some (JObj [(''mission'', JStr mission), (''role'', JStr role),
                                  (''agent_timezone'', JStr ''America/Los_Angeles'')]) \<rparr>)"

definition poll_request :: "plugin_config \<Rightarrow> json \<Rightarrow> http_request" where
  "poll_request pc callSid =
     \<lparr> req_method = ''GET'',
       req_url = [Lit ''http://localhost:'', Hole (JNum (of_nat (pc_port pc))),
                  Lit ''/call/'', Hole callSid, Lit ''/result''],
       req_headers = [(''X-Voice-Key'', opt_json (apiKey (pc_security pc)))],
       req_body = None \<rparr>"

text \<open>
  The body of the \<open>try\<close> block of one round of the loop, given what the poll's
  \<open>fetch\<close> gave: \<open>Inl e\<close> when something in it throws, \<open>Inr (Some r)\<close>
  when it returns \<open>r\<close> from the handler, \<open>Inr None\<close> when it falls through.
  \<open>result.status\<close> is read up to three times; the reads give the same value and
  the model reads it once.
\<close>

definition poll_attempt :: "json \<Rightarrow> json \<Rightarrow> fetch_outcome \<Rightarrow> js_error + mission_result option" where
  "poll_attempt callSid callInfo fo =
     (case fo of
        Rejected \<Rightarrow> Inl FetchFailed
      | Resolved poll \<Rightarrow>
          if resp_ok poll then
            (case resp_json poll of
               None \<Rightarrow> Inl SyntaxError
             | Some result \<Rightarrow>
                 bind (get_prop result ''status'') (\<lambda>status.
                   if status = JStr ''completed'' then
                     bind (get_prop result ''success'') (\<lambda>success.
                     bind (get_prop callInfo ''to'') (\<lambda>to.
                     bind (get_prop result ''outcome'') (\<lambda>outcome.
                     bind (get_prop result ''data'') (\<lambda>data.
                     bind (get_prop result ''next_steps'') (\<lambda>next_steps.
                       Inr (Some \<lparr> mr_success = success, mr_callSid = callSid, mr_to = to,
                                   mr_outcome = outcome,
                                   mr_data = js_or data (JObj []),
                                   mr_next_steps = js_or next_steps (JStr '''') \<rparr>))))))
                   else if status = JStr ''failed'' \<or> status = JStr ''ended_without_result'' then
                     bind (get_prop callInfo ''to'') (\<lambda>to.
                     bind (get_prop result ''reason'') (\<lambda>reason.
                       Inr (Some \<lparr> mr_success = JBool False, mr_callSid = callSid, mr_to = to,
                                   mr_outcome =
                                     js_or reason (JStr ''Call ended without mission result''),
                                   mr_data = JObj [],
                                   mr_next_steps = JStr ''Retry or find alternative approach'' \<rparr>)))
                   else Inr None))
          else Inr None)"

text \<open>
  The \<open>try\<close> with its empty \<open>catch\<close>: whatever is thrown is dropped and the
  loop goes on, as it does when the block falls through.
\<close>

definition poll_round :: "json \<Rightarrow> json \<Rightarrow> fetch_outcome \<Rightarrow> mission_result option" where
  "poll_round callSid callInfo fo =
     (case poll_attempt callSid callInfo fo of
        Inl e \<Rightarrow> None
      | Inr None \<Rightarrow> None
      | Inr (Some r) \<Rightarrow> Some r)"

text \<open>The \<open>return\<close> after the loop.\<close>

definition timed_out :: "json \<Rightarrow> json \<Rightarrow> js_error + mission_result" where
  "timed_out callSid callInfo =
     bind (get_prop callInfo ''to'') (\<lambda>to.
       Inr \<lparr> mr_success = JBool False, mr_callSid = callSid, mr_to = to,
             mr_outcome = JStr ''Timed out waiting for call to complete (5 min)'',
             mr_data = JObj [],
             mr_next_steps = JStr ''Check call logs'' \<rparr>)"

text \<open>
  What the world does in one round of the loop: \<open>setTimeout(r, POLL_MS)\<close> fires
  \<open>ps_late\<close> milliseconds after the \<open>POLL_MS\<close> it was asked for (a timer
  never fires early), the poll takes \<open>ps_fetch_ms\<close> milliseconds until its
  promise settles (every poll settles), and settles as \<open>ps_reply\<close>. The clock
  \<open>Date.now()\<close> is in milliseconds and does not run backwards.
\<close>

record poll_step =
  ps_late :: nat
  ps_fetch_ms :: nat
  ps_reply :: fetch_outcome

text \<open>What the handler does to the world, in order.\<close>

datatype effect = Sleep nat | Fetch http_request

text \<open>
  The \<open>while\<close> loop. \<open>now\<close> is \<open>Date.now()\<close> at the loop's test and
  \<open>k\<close> counts the rounds done; the world's \<open>k\<close>-th step says how round
  \<open>k\<close> goes.
\<close>

function poll_loop ::
  "plugin_config \<Rightarrow> json \<Rightarrow> json \<Rightarrow> (nat \<Rightarrow> poll_step) \<Rightarrow> nat \<Rightarrow> nat \<Rightarrow> nat
     \<Rightarrow> effect list \<times> (js_error + mission_result)" where
  "poll_loop pc callSid callInfo world startTime now k =
     (if now - startTime < MAX_WAIT_MS then
        (case poll_round callSid callInfo (ps_reply (world k)) of
           Some r \<Rightarrow> ([Sleep POLL_MS, Fetch (poll_request pc callSid)], Inr r)
         | None \<Rightarrow>
             (case poll_loop pc callSid callInfo world startTime
                     (now + POLL_MS + ps_late (world k) + ps_fetch_ms (world k)) (Suc k) of
                (effects, r) \<Rightarrow> (Sleep POLL_MS # Fetch (poll_request pc callSid) # effects, r)))
      else ([], timed_out callSid callInfo))"
  by pat_completeness auto
termination
  by (relation "measure (\<lambda>(pc, callSid, callInfo, world, startTime, now, k).
                  MAX_WAIT_MS + startTime - now)")
     (auto simp: MAX_WAIT_MS_def POLL_MS_def)

declare poll_loop.simps [simp del]

text \<open>
  \<open>handler(params, ctx)\<close> (index.js, lines 336 to 408): everything it does to
  the world and what it returns or throws. \<open>net\<close> answers the request that places the call, \<open>world\<close> the
  rounds of the loop, and \<open>startTime\<close> is \<open>Date.now()\<close> when the loop is
  entered.
\<close>

definition handler ::
  "plugin_config \<Rightarrow> (http_request \<Rightarrow> fetch_outcome) \<Rightarrow> (nat \<Rightarrow> poll_step) \<Rightarrow> nat
     \<Rightarrow> mission_params \<Rightarrow> effect list \<times> (js_error + mission_result)" where
  "handler pc net world startTime params =
     (let req = initiate_request pc params
      in case net req of
           Rejected \<Rightarrow> ([Fetch req], Inl FetchFailed)
         | Resolved response \<Rightarrow>
             if \<not> resp_ok response then
               ([Fetch req], Inl (Error (''Failed to initiate call: '' @ resp_text response)))
             else
               (case resp_json response of
                  None \<Rightarrow> ([Fetch req], Inl SyntaxError)
                | Some callInfo \<Rightarrow>
                    (case get_prop callInfo ''call_sid'' of
                       Inl e \<Rightarrow> ([Fetch req], Inl e)
                     | Inr callSid \<Rightarrow>
                         (case poll_loop pc callSid callInfo world startTime startTime 0 of
                            (effects, r) \<Rightarrow> (Fetch req # effects, r)))))"

section \<open>The voice session engine, from its specification\<close>

text \<open>
  The plugin starts the voice server (\<open>watchdog.py\<close>, \<open>server.py\<close>) as a child
  process; the server's code, which holds the authentication gate and the call
  session, is not among the sources. Every definition of this section follows the
  wording of the specification (sections 3, 4.1 and 4.2) and says so.
\<close>

text \<open>
  Modelled from the spec: the Authentication State of a session (the server's code is
  missing), the enumeration \<open>{unauthenticated, authenticated}\<close>.
\<close>

datatype auth_state = Unauthenticated | Authenticated

text \<open>
  Modelled from the spec: the case folding of the gate's ``case-insensitive'' matching
  (the server's code is missing). Case is folded on the letters \<open>A\<close> to \<open>Z\<close>
  (codes 65 to 90; the lower-case letters are 32 higher).
\<close>

definition to_lower :: "char \<Rightarrow> char" where
  "to_lower c =
     (let n = (of_char c :: nat) in if 65 \<le> n \<and> n \<le> 90 then char_of (n + 32) else c)"

text \<open>
  Modelled from the spec: the other direction of the case folding, to state that the
  gate hears a passphrase spoken in ``any case'' (the server's code is missing).
\<close>

definition to_upper :: "char \<Rightarrow> char" where
  "to_upper c =
     (let n = (of_char c :: nat) in if 97 \<le> n \<and> n \<le> 122 then char_of (n - 32) else c)"

text \<open>
  Modelled from the spec: the whitespace of the gate's ``whitespace-normalized''
  matching (the server's code is missing): the space (32) and the five characters from
  tab to carriage return (9 to 13).
\<close>

definition is_space :: "char \<Rightarrow> bool" where
  "is_space c \<longleftrightarrow> (of_char c :: nat) \<in> {32, 9, 10, 11, 12, 13}"

text \<open>
  Modelled from the spec: the words of a text, its maximal runs of characters that are
  not whitespace, for the gate's whitespace normalization (the server's code is
  missing). \<open>cur\<close> is the word being read.
\<close>

fun split_ws :: "string \<Rightarrow> string \<Rightarrow> string list" where
  "split_ws cur [] = (if cur = [] then [] else [cur])"
| "split_ws cur (c # cs) =
     (if is_space c then (if cur = [] then split_ws [] cs else cur # split_ws [] cs)
      else split_ws (cur @ [c]) cs)"

text \<open>
  Modelled from the spec: words joined by single spaces, for the gate's whitespace
  normalization (the server's code is missing).
\<close>

fun unwords :: "string list \<Rightarrow> string" where
  "unwords [] = []"
| "unwords [w] = w"
| "unwords (w # v # ws) = w @ CHR '' '' # unwords (v # ws)"

text \<open>
  Modelled from the spec: the normal form the gate compares (the server's code is
  missing): lower case, a run of whitespace counting as one space, whitespace at either
  end not counting.
\<close>

definition normalize :: "string \<Rightarrow> string" where
  "normalize s = unwords (split_ws [] (map to_lower s))"

text \<open>
  Modelled from the spec: ``containment'' of one text inside another, as a run of
  consecutive characters (the server's code is missing).
\<close>

fun is_infix :: "string \<Rightarrow> string \<Rightarrow> bool" where
  "is_infix xs [] = (xs = [])"
| "is_infix xs (y # ys) = (take (length xs) (y # ys) = xs \<or> is_infix xs ys)"

text \<open>
  Modelled from the spec: the matching of the Authentication Gate (the server's code is
  missing), ``case-insensitive, whitespace-normalized containment matching of the
  configured passphrase inside the utterance''.
\<close>

definition heard :: "string \<Rightarrow> string \<Rightarrow> bool" where
  "heard passphrase utterance \<longleftrightarrow> is_infix (normalize passphrase) (normalize utterance)"

text \<open>
  Modelled from the spec: the Authentication Gate (the server's code is missing), the
  pure function \<open>(currentState, utteranceText) \<rightarrow> nextState\<close> for the configured
  passphrase; once authenticated, a session never reverts.
\<close>

definition gate :: "string \<Rightarrow> auth_state \<Rightarrow> string \<Rightarrow> auth_state" where
  "gate passphrase currentState utteranceText =
     (if currentState = Authenticated then Authenticated
      else if heard passphrase utteranceText then Authenticated
      else Unauthenticated)"

text \<open>
  Modelled from the spec: the gate's state after the utterances of a call, each passed
  to the gate in the order spoken (the server's code is missing).
\<close>

definition gate_after :: "string \<Rightarrow> auth_state \<Rightarrow> string list \<Rightarrow> auth_state" where
  "gate_after passphrase currentState utterances =
     fold (\<lambda>u s. gate passphrase s u) utterances currentState"

text \<open>
  Modelled from the spec: the direction of a Call Session (the server's code is
  missing), \<open>inbound\<close> or \<open>outbound\<close>.
\<close>

datatype direction = Inbound | Outbound

text \<open>
  Modelled from the spec: the lifecycle states of a Call Session (the server's code is
  missing), \<open>CONNECTING \<rightarrow> ACTIVE_UNAUTHENTICATED \<rightarrow> ACTIVE_AUTHENTICATED \<rightarrow>
  TERMINATING \<rightarrow> CLOSED\<close>.
\<close>

datatype lifecycle =
  CONNECTING | ACTIVE_UNAUTHENTICATED | ACTIVE_AUTHENTICATED | TERMINATING | CLOSED

text \<open>
  Modelled from the spec: the Call Session (the server's code is missing), with the
  attributes the gate and the tool-call interception read: direction, lifecycle state
  and authentication state.
\<close>

record session =
  s_direction :: direction
  s_lifecycle :: lifecycle
  s_auth :: auth_state

text \<open>
  Modelled from the spec: a session as it is created (the server's code is missing).
  The authentication state ``starts \<open>unauthenticated\<close> for inbound calls; outbound
  calls start pre-authenticated''.
\<close>

definition new_session :: "direction \<Rightarrow> session" where
  "new_session d =
     \<lparr> s_direction = d, s_lifecycle = CONNECTING,
       s_auth = (case d of Inbound \<Rightarrow> Unauthenticated | Outbound \<Rightarrow> Authenticated) \<rparr>"

text \<open>
  Modelled from the spec: what happens to a session (the server's code is missing):
  the AI leg becomes ready or fails to, the caller is heard to say something, the AI
  leg asks for a tool with its arguments, the time allowed for an unauthenticated
  caller runs out, a leg ends the call, the session has finished terminating.
\<close>

datatype session_event =
    AiLegReady
  | AiLegFailed
  | Utterance string
  | ToolInvocation string json
  | UnauthenticatedExpired
  | LegEnded
  | Terminated

text \<open>
  Modelled from the spec: what the AI leg is answered for a tool invocation (the
  server's code is missing): the backend's result, a failure of the relay, or the
  capability-denied result.
\<close>

datatype tool_result = ToolOk json | ToolFailed string | CapabilityDenied

text \<open>
  Modelled from the spec: what the session does towards the backend and the AI leg
  (the server's code is missing).
\<close>

datatype session_action = ForwardToBackend string json | AnswerAiLeg tool_result

text \<open>
  Modelled from the spec: the Call Session's state machine and its tool-call
  interception (the server's code is missing). ``The session validates it is in
  \<open>ACTIVE_AUTHENTICATED\<close>, otherwise responds to the AI leg with a
  capability-denied result without contacting the backend. Valid invocations are
  forwarded synchronously to the Tool Relay Client''; \<open>relay\<close> is that client,
  giving the backend's result or a failure. In \<open>ACTIVE_UNAUTHENTICATED\<close> every
  utterance is passed to the gate, and a match moves the session to
  \<open>ACTIVE_AUTHENTICATED\<close>.
\<close>

definition session_step ::
  "string \<Rightarrow> (string \<Rightarrow> json \<Rightarrow> tool_result) \<Rightarrow> session \<Rightarrow> session_event
     \<Rightarrow> session \<times> session_action list" where
  "session_step passphrase relay s e =
     (case e of
        ToolInvocation name args \<Rightarrow>
          if s_lifecycle s = ACTIVE_AUTHENTICATED
          then (s, [ForwardToBackend name args, AnswerAiLeg (relay name args)])
          else (s, [AnswerAiLeg CapabilityDenied])
      | AiLegReady \<Rightarrow>
          if s_lifecycle s = CONNECTING
          then (case s_direction s of
                  Inbound \<Rightarrow> (s \<lparr> s_lifecycle := ACTIVE_UNAUTHENTICATED \<rparr>, [])
                | Outbound \<Rightarrow> (s \<lparr> s_lifecycle := ACTIVE_AUTHENTICATED \<rparr>, []))
          else (s, [])
      | AiLegFailed \<Rightarrow>
          if s_lifecycle s = CONNECTING then (s \<lparr> s_lifecycle := TERMINATING \<rparr>, [])
          else (s, [])
      | Utterance text \<Rightarrow>
          if s_lifecycle s = ACTIVE_UNAUTHENTICATED
          then (case gate passphrase (s_auth s) text of
                  Authenticated \<Rightarrow>
                    (s \<lparr> s_lifecycle := ACTIVE_AUTHENTICATED, s_auth := Authenticated \<rparr>, [])
                | Unauthenticated \<Rightarrow> (s, []))
          else (s, [])
      | UnauthenticatedExpired \<Rightarrow>
          if s_lifecycle s = ACTIVE_UNAUTHENTICATED then (s \<lparr> s_lifecycle := TERMINATING \<rparr>, [])
          else (s, [])
      | LegEnded \<Rightarrow>
          if s_lifecycle s = CLOSED then (s, []) else (s \<lparr> s_lifecycle := TERMINATING \<rparr>, [])
      | Terminated \<Rightarrow>
          if s_lifecycle s = TERMINATING then (s \<lparr> s_lifecycle := CLOSED \<rparr>, [])
          else (s, []))"

text \<open>
  Modelled from the spec: the session a call has become after the events so far (the
  server's code is missing).
\<close>

definition session_after ::
  "string \<Rightarrow> (string \<Rightarrow> json \<Rightarrow> tool_result) \<Rightarrow> direction \<Rightarrow> session_event list
     \<Rightarrow> session" where
  "session_after passphrase relay d events =
     fold (\<lambda>e s. fst (session_step passphrase relay s e)) events (new_session d)"

text \<open>
  Modelled from the spec: everything the session did over the events, in order (the
  server's code is missing).
\<close>

fun session_actions ::
  "string \<Rightarrow> (string \<Rightarrow> json \<Rightarrow> tool_result) \<Rightarrow> session \<Rightarrow> session_event list
     \<Rightarrow> session_action list" where
  "session_actions passphrase relay s [] = []"
| "session_actions passphrase relay s (e # es) =
     snd (session_step passphrase relay s e) @
     session_actions passphrase relay (fst (session_step passphrase relay s e)) es"

text \<open>
  Modelled from the spec: an action that contacts the backend (the server's code is
  missing).
\<close>

definition is_forward :: "session_action \<Rightarrow> bool" where
  "is_forward a = (case a of ForwardToBackend name args \<Rightarrow> True | AnswerAiLeg r \<Rightarrow> False)"

section \<open>Notions the properties of the mission tool are stated with\<close>

text \<open>
  \<open>Date.now()\<close> at the loop's test before round \<open>k\<close>, when the rounds before
  it all went on: each of them adds the timer's \<open>POLL_MS\<close>, its lateness and
  the time its poll took.
\<close>

fun clock_at :: "(nat \<Rightarrow> poll_step) \<Rightarrow> nat \<Rightarrow> nat \<Rightarrow> nat" where
  "clock_at world startTime 0 = startTime"
| "clock_at world startTime (Suc k) =
     clock_at world startTime k + POLL_MS + ps_late (world k) + ps_fetch_ms (world k)"

text \<open>
  A poll's reply that carries a terminal status: an ok response whose JSON body has
  \<open>status\<close> \<open>completed\<close>, \<open>failed\<close> or \<open>ended_without_result\<close>.
\<close>

definition terminal_reply :: "fetch_outcome \<Rightarrow> bool" where
  "terminal_reply fo =
     (case fo of
        Rejected \<Rightarrow> False
      | Resolved poll \<Rightarrow>
          resp_ok poll \<and>
          (case resp_json poll of
             None \<Rightarrow> False
           | Some result \<Rightarrow>
               get_prop result ''status'' = Inr (JStr ''completed'') \<or>
               get_prop result ''status'' = Inr (JStr ''failed'') \<or>
               get_prop result ''status'' = Inr (JStr ''ended_without_result'')))"

text \<open>What one round of the loop does to the world: the timer, then the poll.\<close>

abbreviation round_effects :: "plugin_config \<Rightarrow> json \<Rightarrow> effect list" where
  "round_effects pc callSid \<equiv> [Sleep POLL_MS, Fetch (poll_request pc callSid)]"

text \<open>Inputs for the worked examples.\<close>

definition env_config :: config where
  "env_config = \<lparr> cfg_enabled = None, cfg_port = None,
                   cfg_twilio = Some \<lparr> accountSid = Some ''AC0'', authToken = Some ''t0'',
                                       fromNumber = Some ''+14155550000'' \<rparr>,
                   cfg_openai = Some \<lparr> openai_apiKey = Some ''sk-0'' \<rparr>,
                   cfg_security = None, cfg_apiKey = None \<rparr>"

definition keyed_config :: config where
  "keyed_config = env_config \<lparr> cfg_security := Some \<lparr> challenge = Some ''open sesame'',
                                                     apiKey = Some ''k-123'' \<rparr> \<rparr>"

definition empty_challenge_config :: config where
  "empty_challenge_config =
     env_config \<lparr> cfg_security := Some \<lparr> challenge = Some '''', apiKey = Some ''k-123'' \<rparr> \<rparr>"

definition no_challenge_config :: config where
  "no_challenge_config =
     env_config \<lparr> cfg_security := Some \<lparr> challenge = None, apiKey = Some ''k-123'' \<rparr> \<rparr>"

definition accepted :: http_response where
  "accepted = \<lparr> resp_ok = True, resp_text = [],
                 resp_json = Some (JObj [(''success'', JBool True), (''call_sid'', JStr ''CA1''),
                                         (''to'', JStr ''+14155551234''),
                                         (''from'', JStr ''+14155550000''),
                                         (''status'', JStr ''queued'')]) \<rparr>"


definition on_time :: "fetch_outcome \<Rightarrow> poll_step" where
  "on_time fo = \<lparr> ps_late = 0, ps_fetch_ms = 0, ps_reply = fo \<rparr>"

definition status_only :: "string \<Rightarrow> fetch_outcome" where
  "status_only s = Resolved \<lparr> resp_ok = True, resp_text = [],
                              resp_json = Some (JObj [(''status'', JStr s)]) \<rparr>"

definition the_plugin :: plugin_config where
  "the_plugin = advancedVoicePlugin Map.empty keyed_config"

definition the_mission :: mission_params where
  "the_mission = \<lparr> mp_to = ''+14155551234'', mp_mission = ''confirm the 3pm meeting'',
                    mp_role = None \<rparr>"

definition poll_reply :: "(string \<times> json) list \<Rightarrow> fetch_outcome" where
  "poll_reply kvs = Resolved \<lparr> resp_ok = True, resp_text = [], resp_json = Some (JObj kvs) \<rparr>"

definition left_message :: "(string \<times> json) list" where
  "left_message = [(''status'', JStr ''completed''), (''success'', JBool True),
                   (''outcome'', JStr ''left message''),
                   (''data'', JObj [(''confirmed'', JBool True)]),
                   (''next_steps'', JStr ''none'')]"

definition left_message_nulls :: "(string \<times> json) list" where
  "left_message_nulls = [(''status'', JStr ''completed''), (''success'', JBool True),
                         (''outcome'', JStr ''left message''),
                         (''data'', JNull), (''next_steps'', JNull)]"

definition no_answer :: "(string \<times> json) list" where
  "no_answer = [(''status'', JStr ''failed''), (''reason'', JStr ''no answer''),
                (''outcome'', JStr ''ignored'')]"

definition empty_reason :: "(string \<times> json) list" where
  "empty_reason = [(''status'', JStr ''ended_without_result''), (''reason'', JStr '''')]"

section \<open>Auxiliary facts\<close>

subsection \<open>Reading JavaScript values\<close>

lemma bind_Inr [simp]: "bind (Inr v) f = f v"
  by (simp add: bind_def)

lemma bind_Inl [simp]: "bind (Inl e) f = Inl e"
  by (simp add: bind_def)

lemma get_prop_total:
  assumes "get_prop v k = Inr x"
  shows "\<exists>y. get_prop v k' = Inr y"
  using assms by (cases v) (auto simp: get_prop_def split: option.splits)

lemma poll_round_None_iff:
  assumes "get_prop callInfo ''to'' = Inr to"
  shows "poll_round callSid callInfo fo = None \<longleftrightarrow> \<not> terminal_reply fo"
proof (cases fo)
  case Rejected
  then show ?thesis by (simp add: poll_round_def poll_attempt_def terminal_reply_def)
next
  case (Resolved poll)
  show ?thesis
  proof (cases "resp_ok poll")
    case False
    with Resolved show ?thesis by (simp add: poll_round_def poll_attempt_def terminal_reply_def)
  next
    case ok: True
    show ?thesis
    proof (cases "resp_json poll")
      case None
      with Resolved ok show ?thesis
        by (simp add: poll_round_def poll_attempt_def terminal_reply_def)
    next
      case (Some result)
      show ?thesis
      proof (cases "get_prop result ''status''")
        case (Inl e)
        with Resolved ok Some show ?thesis
          by (simp add: poll_round_def poll_attempt_def terminal_reply_def)
      next
        case (Inr status)
        obtain a b c d r where reads:
          "get_prop result ''success'' = Inr a" "get_prop result ''outcome'' = Inr b"
          "get_prop result ''data'' = Inr c" "get_prop result ''next_steps'' = Inr d"
          "get_prop result ''reason'' = Inr r"
          using get_prop_total [OF Inr] by metis
        with Resolved ok Some Inr assms show ?thesis
          by (simp add: poll_round_def poll_attempt_def terminal_reply_def)
      qed
    qed
  qed
qed

subsection \<open>The polling loop, round by round\<close>

lemma poll_loop_expired:
  "\<not> now - startTime < MAX_WAIT_MS \<Longrightarrow>
   poll_loop pc callSid callInfo world startTime now k = ([], timed_out callSid callInfo)"
  by (simp add: poll_loop.simps)

lemma poll_loop_return:
  "now - startTime < MAX_WAIT_MS \<Longrightarrow>
   poll_round callSid callInfo (ps_reply (world k)) = Some r \<Longrightarrow>
   poll_loop pc callSid callInfo world startTime now k = (round_effects pc callSid, Inr r)"
  by (simp add: poll_loop.simps)

lemma poll_loop_continue:
  "now - startTime < MAX_WAIT_MS \<Longrightarrow>
   poll_round callSid callInfo (ps_reply (world k)) = None \<Longrightarrow>
   poll_loop pc callSid callInfo world startTime now k =
     (round_effects pc callSid @
        fst (poll_loop pc callSid callInfo world startTime
               (now + POLL_MS + ps_late (world k) + ps_fetch_ms (world k)) (Suc k)),
      snd (poll_loop pc callSid callInfo world startTime
               (now + POLL_MS + ps_late (world k) + ps_fetch_ms (world k)) (Suc k)))"
  by (subst poll_loop.simps) (simp split: prod.splits)

lemma poll_loop_unroll:
  "(\<And>i. i < n \<Longrightarrow> clock_at world start (k + i) - start < MAX_WAIT_MS) \<Longrightarrow>
   (\<And>i. i < n \<Longrightarrow> poll_round callSid callInfo (ps_reply (world (k + i))) = None) \<Longrightarrow>
   poll_loop pc callSid callInfo world start (clock_at world start k) k =
     (concat (replicate n (round_effects pc callSid)) @
        fst (poll_loop pc callSid callInfo world start (clock_at world start (k + n)) (k + n)),
      snd (poll_loop pc callSid callInfo world start (clock_at world start (k + n)) (k + n)))"
proof (induction n arbitrary: k)
  case 0
  then show ?case by simp
next
  case (Suc n)
  have now: "clock_at world start k - start < MAX_WAIT_MS"
    using Suc.prems(1) [of 0] by simp
  have silent: "poll_round callSid callInfo (ps_reply (world k)) = None"
    using Suc.prems(2) [of 0] by simp
  have rest:
    "poll_loop pc callSid callInfo world start (clock_at world start (Suc k)) (Suc k) =
       (concat (replicate n (round_effects pc callSid)) @
          fst (poll_loop pc callSid callInfo world start (clock_at world start (Suc k + n)) (Suc k + n)),
        snd (poll_loop pc callSid callInfo world start (clock_at world start (Suc k + n)) (Suc k + n)))"
  proof (rule Suc.IH)
    fix i assume "i < n"
    then show "clock_at world start (Suc k + i) - start < MAX_WAIT_MS"
      using Suc.prems(1) [of "Suc i"] by simp
  next
    fix i assume "i < n"
    then show "poll_round callSid callInfo (ps_reply (world (Suc k + i))) = None"
      using Suc.prems(2) [of "Suc i"] by simp
  qed
  show ?case
    using poll_loop_continue [where now = "clock_at world start k" and startTime = start
        and world = world and k = k and callSid = callSid and callInfo = callInfo and pc = pc]
      now silent rest by simp
qed

lemma clock_at_lower: "startTime + k * POLL_MS \<le> clock_at world startTime k"
  by (induction k) simp_all

lemma deadline_by_60: "\<not> clock_at world startTime 60 - startTime < MAX_WAIT_MS"
  using clock_at_lower [of startTime 60 world] by (simp add: MAX_WAIT_MS_def POLL_MS_def)

lemma first_stop:
  obtains n where "n \<le> 60"
    and "\<And>i. i < n \<Longrightarrow> clock_at world start i - start < MAX_WAIT_MS"
    and "\<And>i. i < n \<Longrightarrow> poll_round callSid callInfo (ps_reply (world i)) = None"
    and "\<not> clock_at world start n - start < MAX_WAIT_MS \<or>
         poll_round callSid callInfo (ps_reply (world n)) \<noteq> None"
proof -
  define stops where "stops m \<longleftrightarrow>
      \<not> clock_at world start m - start < MAX_WAIT_MS \<or>
      poll_round callSid callInfo (ps_reply (world m)) \<noteq> None" for m
  define n where "n = (LEAST m. stops m)"
  have "stops 60"
    using deadline_by_60 [of world start] by (simp add: stops_def)
  then have "stops n" and "n \<le> 60"
    unfolding n_def by (rule LeastI, rule Least_le)
  moreover have "\<not> stops i" if "i < n" for i
    using that not_less_Least unfolding n_def by blast
  ultimately show thesis
    using that [of n] unfolding stops_def by blast
qed

lemma poll_loop_from_start:
  assumes "\<And>i. i < n \<Longrightarrow> clock_at world start i - start < MAX_WAIT_MS"
    and "\<And>i. i < n \<Longrightarrow> poll_round callSid callInfo (ps_reply (world i)) = None"
  shows "poll_loop pc callSid callInfo world start start 0 =
     (concat (replicate n (round_effects pc callSid)) @
        fst (poll_loop pc callSid callInfo world start (clock_at world start n) n),
      snd (poll_loop pc callSid callInfo world start (clock_at world start n) n))"
  using poll_loop_unroll [where k = 0 and n = n and world = world and start = start
      and callSid = callSid and callInfo = callInfo and pc = pc] assms
  by simp

lemma poll_loop_gives_up:
  assumes "\<And>i. i < n \<Longrightarrow> clock_at world start i - start < MAX_WAIT_MS"
    and "\<And>i. i < n \<Longrightarrow> poll_round callSid callInfo (ps_reply (world i)) = None"
    and "\<not> clock_at world start n - start < MAX_WAIT_MS"
  shows "poll_loop pc callSid callInfo world start start 0 =
     (concat (replicate n (round_effects pc callSid)), timed_out callSid callInfo)"
  using poll_loop_from_start [of n world start callSid callInfo pc, OF assms(1,2)]
    poll_loop_expired [OF assms(3)]
  by simp

lemma replicate_Suc_snoc: "concat (replicate n xs) @ xs = concat (replicate (Suc n) xs)"
  by (induction n) simp_all

lemma poll_loop_returns_at:
  assumes "\<And>i. i < n \<Longrightarrow> clock_at world start i - start < MAX_WAIT_MS"
    and "\<And>i. i < n \<Longrightarrow> poll_round callSid callInfo (ps_reply (world i)) = None"
    and "clock_at world start n - start < MAX_WAIT_MS"
    and "poll_round callSid callInfo (ps_reply (world n)) = Some r"
  shows "poll_loop pc callSid callInfo world start start 0 =
     (concat (replicate (Suc n) (round_effects pc callSid)), Inr r)"
proof -
  have "poll_loop pc callSid callInfo world start (clock_at world start n) n =
          (round_effects pc callSid, Inr r)"
    using assms(3,4) by (rule poll_loop_return)
  then show ?thesis
    using poll_loop_from_start [of n world start callSid callInfo pc, OF assms(1,2)]
      replicate_Suc_snoc [of n "round_effects pc callSid"]
    by simp
qed

lemma timed_out_value:
  "get_prop callInfo ''to'' = Inr to \<Longrightarrow>
   timed_out callSid callInfo =
     Inr \<lparr> mr_success = JBool False, mr_callSid = callSid, mr_to = to,
           mr_outcome = JStr ''Timed out waiting for call to complete (5 min)'',
           mr_data = JObj [], mr_next_steps = JStr ''Check call logs'' \<rparr>"
  by (simp add: timed_out_def)

lemma handler_polls:
  assumes "net (initiate_request pc params) = Resolved response"
    and "resp_ok response"
    and "resp_json response = Some callInfo"
    and "get_prop callInfo ''call_sid'' = Inr callSid"
  shows "handler pc net world start params =
     (Fetch (initiate_request pc params) # fst (poll_loop pc callSid callInfo world start start 0),
      snd (poll_loop pc callSid callInfo world start start 0))"
  using assms by (simp add: handler_def Let_def split: prod.splits)

lemma clock_at_ideal:
  "(\<And>i. ps_late (world i) = 0 \<and> ps_fetch_ms (world i) = 0) \<Longrightarrow>
   clock_at world start k = start + k * POLL_MS"
  by (induction k) simp_all


subsection \<open>Placing the call\<close>





subsection \<open>What one poll returns\<close>

lemma poll_round_completed:
  assumes "resp_ok poll" and "resp_json poll = Some result"
    and "get_prop result ''status'' = Inr (JStr ''completed'')"
    and "get_prop callInfo ''to'' = Inr to"
    and "get_prop result ''success'' = Inr success"
    and "get_prop result ''outcome'' = Inr outcome"
    and "get_prop result ''data'' = Inr data"
    and "get_prop result ''next_steps'' = Inr next_steps"
  shows "poll_round callSid callInfo (Resolved poll) =
     Some \<lparr> mr_success = success, mr_callSid = callSid, mr_to = to, mr_outcome = outcome,
            mr_data = (if truthy data then data else JObj []),
            mr_next_steps = (if truthy next_steps then next_steps else JStr '''') \<rparr>"
  using assms by (simp add: poll_round_def poll_attempt_def js_or_def)

lemma poll_round_failed:
  assumes "resp_ok poll" and "resp_json poll = Some result"
    and "get_prop result ''status'' = Inr status"
    and "status = JStr ''failed'' \<or> status = JStr ''ended_without_result''"
    and "get_prop callInfo ''to'' = Inr to"
    and "get_prop result ''reason'' = Inr reason"
  shows "poll_round callSid callInfo (Resolved poll) =
     Some \<lparr> mr_success = JBool False, mr_callSid = callSid, mr_to = to,
            mr_outcome = (if truthy reason then reason
                          else JStr ''Call ended without mission result''),
            mr_data = JObj [],
            mr_next_steps = JStr ''Retry or find alternative approach'' \<rparr>"
  using assms by (auto simp add: poll_round_def poll_attempt_def js_or_def)



text \<open>What the loop gives when round \<open>n\<close> is the first whose poll is terminal.\<close>

subsection \<open>Whole runs of the polling loop\<close>

lemma poll_loop_first_terminal:
  assumes to: "get_prop callInfo ''to'' = Inr to"
    and before: "\<forall>i<n. \<not> terminal_reply (ps_reply (world i))"
    and at: "poll_round callSid callInfo (ps_reply (world n)) = Some r"
  shows "if \<forall>i\<le>n. clock_at world start i - start < MAX_WAIT_MS
         then poll_loop pc callSid callInfo world start start 0 =
                (concat (replicate (Suc n) (round_effects pc callSid)), Inr r)
         else snd (poll_loop pc callSid callInfo world start start 0) =
                timed_out callSid callInfo"
proof (cases "\<forall>i\<le>n. clock_at world start i - start < MAX_WAIT_MS")
  case True
  have silent: "poll_round callSid callInfo (ps_reply (world i)) = None" if "i < n" for i
    using that before poll_round_None_iff [OF to] by simp
  have early: "clock_at world start i - start < MAX_WAIT_MS" if "i < n" for i
    using that True by simp
  have "clock_at world start n - start < MAX_WAIT_MS"
    using True by simp
  then have "poll_loop pc callSid callInfo world start start 0 =
      (concat (replicate (Suc n) (round_effects pc callSid)), Inr r)"
    using poll_loop_returns_at [of n world start callSid callInfo r pc] early silent at
    by blast
  then show ?thesis
    unfolding if_P [OF True] .
next
  case False
  define late where "late i \<longleftrightarrow> \<not> clock_at world start i - start < MAX_WAIT_MS" for i
  define m where "m = (LEAST i. late i)"
  from False obtain j where j: "j \<le> n" "late j"
    unfolding late_def by blast
  then have "late m" and "m \<le> j"
    unfolding m_def by (auto intro: LeastI Least_le)
  have early: "clock_at world start i - start < MAX_WAIT_MS" if "i < m" for i
    using that not_less_Least [of i late] unfolding m_def late_def by blast
  have silent: "poll_round callSid callInfo (ps_reply (world i)) = None" if "i < m" for i
    using that \<open>m \<le> j\<close> j(1) before poll_round_None_iff [OF to] by simp
  have "poll_loop pc callSid callInfo world start start 0 =
      (concat (replicate m (round_effects pc callSid)), timed_out callSid callInfo)"
    using poll_loop_gives_up [of m world start callSid callInfo pc] early silent \<open>late m\<close>
    unfolding late_def by blast
  then have "snd (poll_loop pc callSid callInfo world start start 0) =
      timed_out callSid callInfo"
    by simp
  then show ?thesis
    unfolding if_not_P [OF False] .
qed

text \<open>Every run of the loop: how many rounds, and how it ends.\<close>

lemma poll_loop_run:
  assumes to: "get_prop callInfo ''to'' = Inr to"
  shows "\<exists>n\<le>60.
     fst (poll_loop pc callSid callInfo world start start 0) =
       concat (replicate n (round_effects pc callSid)) \<and>
     (\<forall>i<n. clock_at world start i - start < MAX_WAIT_MS) \<and>
     ((\<forall>i<n. \<not> terminal_reply (ps_reply (world i))) \<longrightarrow>
        MAX_WAIT_MS \<le> clock_at world start n - start \<and>
        snd (poll_loop pc callSid callInfo world start start 0) = timed_out callSid callInfo)"
proof (rule first_stop [of world start callSid callInfo])
  fix n
  assume n: "n \<le> 60"
    and early: "\<And>i. i < n \<Longrightarrow> clock_at world start i - start < MAX_WAIT_MS"
    and silent: "\<And>i. i < n \<Longrightarrow> poll_round callSid callInfo (ps_reply (world i)) = None"
    and stop: "\<not> clock_at world start n - start < MAX_WAIT_MS \<or>
         poll_round callSid callInfo (ps_reply (world n)) \<noteq> None"
  show ?thesis
  proof (cases "clock_at world start n - start < MAX_WAIT_MS")
    case False
    have "poll_loop pc callSid callInfo world start start 0 =
        (concat (replicate n (round_effects pc callSid)), timed_out callSid callInfo)"
      using poll_loop_gives_up [of n world start callSid callInfo pc, OF early silent False]
      by simp
    with n early False show ?thesis
      by (intro exI [of _ n]) simp
  next
    case True
    with stop obtain r where r: "poll_round callSid callInfo (ps_reply (world n)) = Some r"
      by auto
    have run: "poll_loop pc callSid callInfo world start start 0 =
        (concat (replicate (Suc n) (round_effects pc callSid)), Inr r)"
      using poll_loop_returns_at [of n world start callSid callInfo r pc, OF early silent True r]
      by simp
    have "n * POLL_MS < MAX_WAIT_MS"
      using True clock_at_lower [of start n world] by simp
    then have bound: "Suc n \<le> 60"
      by (simp add: POLL_MS_def MAX_WAIT_MS_def)
    have all_early: "\<forall>i<Suc n. clock_at world start i - start < MAX_WAIT_MS"
      using early True by (simp add: less_Suc_eq)
    have "terminal_reply (ps_reply (world n))"
      using r poll_round_None_iff [OF to, of callSid "ps_reply (world n)"] by simp
    then have ended:
      "(\<forall>i<Suc n. \<not> terminal_reply (ps_reply (world i))) \<longrightarrow>
         MAX_WAIT_MS \<le> clock_at world start (Suc n) - start \<and>
         snd (poll_loop pc callSid callInfo world start start 0) = timed_out callSid callInfo"
      by blast
    have "fst (poll_loop pc callSid callInfo world start start 0) =
        concat (replicate (Suc n) (round_effects pc callSid))"
      using run by simp
    with bound all_early ended show ?thesis
      by blast
  qed
qed

lemma sixty_rounds_on_time:
  assumes "\<And>i. ps_late (world i) = 0 \<and> ps_fetch_ms (world i) = 0"
    and "\<forall>i<n. clock_at world start i - start < MAX_WAIT_MS"
    and "MAX_WAIT_MS \<le> clock_at world start n - start"
  shows "n = 60"
proof -
  have clock: "clock_at world start k - start = k * POLL_MS" for k
    using clock_at_ideal [of world start k] assms(1) by simp
  have "60 \<le> n"
    using assms(3) by (simp add: clock POLL_MS_def MAX_WAIT_MS_def)
  moreover have "n \<le> 60"
  proof (rule ccontr)
    assume "\<not> n \<le> 60"
    then have "60 < n" by simp
    with assms(2) have "clock_at world start 60 - start < MAX_WAIT_MS" by blast
    then show False by (simp add: clock POLL_MS_def MAX_WAIT_MS_def)
  qed
  ultimately show ?thesis by simp
qed

subsection \<open>The call the mission tool's result names\<close>





subsection \<open>The worked examples\<close>

lemma example_placed:
  "resp_ok accepted"
  "resp_json accepted = Some (JObj [(''success'', JBool True), (''call_sid'', JStr ''CA1''),
      (''to'', JStr ''+14155551234''), (''from'', JStr ''+14155550000''),
      (''status'', JStr ''queued'')])"
  "get_prop (JObj [(''success'', JBool True), (''call_sid'', JStr ''CA1''),
      (''to'', JStr ''+14155551234''), (''from'', JStr ''+14155550000''),
      (''status'', JStr ''queued'')]) ''call_sid'' = Inr (JStr ''CA1'')"
  "get_prop (JObj [(''success'', JBool True), (''call_sid'', JStr ''CA1''),
      (''to'', JStr ''+14155551234''), (''from'', JStr ''+14155550000''),
      (''status'', JStr ''queued'')]) ''to'' = Inr (JStr ''+14155551234'')"
  by (simp_all add: accepted_def get_prop_def)

lemma example_on_time:
  "ps_late (on_time fo) = 0" "ps_fetch_ms (on_time fo) = 0" "ps_reply (on_time fo) = fo"
  by (simp_all add: on_time_def)

lemma example_reads:
  "get_prop (JObj left_message) ''status'' = Inr (JStr ''completed'')"
  "get_prop (JObj left_message) ''success'' = Inr (JBool True)"
  "get_prop (JObj left_message) ''outcome'' = Inr (JStr ''left message'')"
  "get_prop (JObj left_message) ''data'' = Inr (JObj [(''confirmed'', JBool True)])"
  "get_prop (JObj left_message) ''next_steps'' = Inr (JStr ''none'')"
  "get_prop (JObj left_message_nulls) ''status'' = Inr (JStr ''completed'')"
  "get_prop (JObj left_message_nulls) ''success'' = Inr (JBool True)"
  "get_prop (JObj left_message_nulls) ''outcome'' = Inr (JStr ''left message'')"
  "get_prop (JObj left_message_nulls) ''data'' = Inr JNull"
  "get_prop (JObj left_message_nulls) ''next_steps'' = Inr JNull"
  "get_prop (JObj no_answer) ''status'' = Inr (JStr ''failed'')"
  "get_prop (JObj no_answer) ''reason'' = Inr (JStr ''no answer'')"
  "get_prop (JObj empty_reason) ''status'' = Inr (JStr ''ended_without_result'')"
  "get_prop (JObj empty_reason) ''reason'' = Inr (JStr '''')"
  by (simp_all add: get_prop_def left_message_def left_message_nulls_def no_answer_def
      empty_reason_def)

lemma example_in_progress: "\<not> terminal_reply (status_only ''in_progress'')"
  by (simp add: status_only_def terminal_reply_def get_prop_def)

lemma example_clock: "clock_at (\<lambda>k. on_time (f k)) start i - start = i * POLL_MS"
  using clock_at_ideal [of "\<lambda>k. on_time (f k)" start i] by (simp add: example_on_time)





subsection \<open>The configuration passed to the watchdog\<close>

lemma childEnv_challenge:
  "childEnv pc env ''SECURITY_CHALLENGE'' = Some (or_str (challenge (pc_security pc)) '''')"
  by (simp add: childEnv_def)

lemma plugin_challenge:
  "challenge (pc_security (advancedVoicePlugin env config)) =
     (case cfg_security config of
        None \<Rightarrow> or_opt None (env ''SECURITY_CHALLENGE'')
      | Some s \<Rightarrow> challenge s)"
  by (simp add: advancedVoicePlugin_def split: option.splits)

lemma plugin_enabled:
  "pc_enabled (advancedVoicePlugin env config) \<longleftrightarrow> cfg_enabled config \<noteq> Some False"
  by (auto simp add: advancedVoicePlugin_def split: option.splits)

subsection \<open>The matching of the gate\<close>

lemma to_lower_idem [simp]: "to_lower (to_lower c) = to_lower c"
  by (simp add: to_lower_def Let_def)

lemma to_lower_upper [simp]: "to_lower (to_upper c) = to_lower c"
proof -
  have "char_of (of_char c - (32::nat) + 32) = c" if "97 \<le> (of_char c :: nat)"
  proof -
    have "of_char c - (32::nat) + 32 = of_char c" using that by simp
    then show ?thesis by simp
  qed
  then show ?thesis
    by (auto simp add: to_lower_def to_upper_def Let_def)
qed

lemma is_space_to_lower [simp]: "is_space (to_lower c) = is_space c"
  by (auto simp add: is_space_def to_lower_def Let_def)

lemma normalize_upper: "normalize (map to_upper u) = normalize u"
  by (simp add: normalize_def comp_def)

lemma normalize_lower: "normalize (map to_lower u) = normalize u"
  by (simp add: normalize_def comp_def)

lemma split_ws_spaces:
  "\<forall>c\<in>set ws. is_space c \<Longrightarrow> split_ws [] (ws @ u) = split_ws [] u"
  by (induction ws) simp_all

lemma split_ws_run:
  "is_space w \<Longrightarrow> \<forall>c\<in>set ws. is_space c \<Longrightarrow>
   split_ws cur (a @ w # ws @ b) = split_ws cur (a @ w # b)"
  by (induction a arbitrary: cur) (simp_all add: split_ws_spaces)

lemma split_ws_only_spaces:
  "\<forall>c\<in>set ws. is_space c \<Longrightarrow> split_ws cur ws = (if cur = [] then [] else [cur])"
  by (induction ws arbitrary: cur) (auto simp add: split_ws_spaces [of _ "[]", simplified])

lemma split_ws_trailing:
  "\<forall>c\<in>set ws. is_space c \<Longrightarrow> split_ws cur (u @ ws) = split_ws cur u"
  by (induction u arbitrary: cur) (simp_all add: split_ws_only_spaces)

lemma normalize_run:
  assumes "is_space w" and "\<forall>c\<in>set ws. is_space c"
  shows "normalize (a @ w # ws @ b) = normalize (a @ w # b)"
  using split_ws_run [of "to_lower w" "map to_lower ws" "[]" "map to_lower a" "map to_lower b"]
    assms
  by (simp add: normalize_def)

lemma normalize_leading:
  assumes "\<forall>c\<in>set ws. is_space c"
  shows "normalize (ws @ u) = normalize u"
  using split_ws_spaces [of "map to_lower ws" "map to_lower u"] assms
  by (simp add: normalize_def)

lemma normalize_trailing:
  assumes "\<forall>c\<in>set ws. is_space c"
  shows "normalize (u @ ws) = normalize u"
  using split_ws_trailing [of "map to_lower ws" "[]" "map to_lower u"] assms
  by (simp add: normalize_def)

lemma gate_after_authenticated: "gate_after p Authenticated us = Authenticated"
  by (induction us) (simp_all add: gate_after_def gate_def)

lemma gate_after_append:
  "gate_after p s (us @ vs) = gate_after p (gate_after p s us) vs"
  by (simp add: gate_after_def)

lemma unwords_Cons: "unwords (w # ws) = w @ (if ws = [] then [] else CHR '' '' # unwords ws)"
  by (cases ws) simp_all

lemma split_ws_grow:
  "w \<noteq> [] \<Longrightarrow> \<exists>v vs. split_ws w cs = (w @ v) # vs \<and> split_ws (cur @ w) cs = (cur @ w @ v) # vs"
proof (induction cs arbitrary: w)
  case Nil
  then show ?case by simp
next
  case (Cons c cs)
  show ?case
  proof (cases "is_space c")
    case True
    with Cons.prems show ?thesis by simp
  next
    case False
    obtain v vs where "split_ws (w @ [c]) cs = ((w @ [c]) @ v) # vs"
        "split_ws (cur @ w @ [c]) cs = (cur @ (w @ [c]) @ v) # vs"
      using Cons.IH [of "w @ [c]"] by auto
    with False show ?thesis by simp
  qed
qed

lemma unwords_split_ws_cur:
  "\<exists>pre. unwords (split_ws cur y) = pre @ unwords (split_ws [] y)"
proof (induction y arbitrary: cur)
  case Nil
  then show ?case by simp
next
  case (Cons c y)
  show ?case
  proof (cases "is_space c")
    case True
    then show ?thesis
      by (cases "cur = []") (simp_all add: unwords_Cons)
  next
    case False
    obtain v vs where "split_ws [c] y = ([c] @ v) # vs"
        "split_ws (cur @ [c]) y = (cur @ [c] @ v) # vs"
      using split_ws_grow [of "[c]" y cur] by auto
    with False show ?thesis
      by (simp add: unwords_Cons)
  qed
qed

lemma unwords_split_ws_prefix:
  "\<exists>pre. unwords (split_ws cur (x @ y)) = pre @ unwords (split_ws [] y)"
proof (induction x arbitrary: cur)
  case Nil
  then show ?case by (simp add: unwords_split_ws_cur)
next
  case (Cons c x)
  show ?case
  proof (cases "is_space c")
    case True
    obtain pre where pre: "unwords (split_ws [] (x @ y)) = pre @ unwords (split_ws [] y)"
      using Cons.IH [of "[]"] by auto
    show ?thesis
    proof (cases "cur = []")
      case True
      with \<open>is_space c\<close> pre show ?thesis by simp
    next
      case False
      have "unwords (split_ws cur ((c # x) @ y)) =
          (cur @ (if split_ws [] (x @ y) = [] then [] else [CHR '' ''])) @
          unwords (split_ws [] (x @ y))"
        using False \<open>is_space c\<close> by (simp add: unwords_Cons)
      then have "unwords (split_ws cur ((c # x) @ y)) =
          ((cur @ (if split_ws [] (x @ y) = [] then [] else [CHR '' ''])) @ pre) @
          unwords (split_ws [] y)"
        using pre by simp
      then show ?thesis by blast
    qed
  next
    case False
    then show ?thesis
      using Cons.IH [of "cur @ [c]"] by simp
  qed
qed

lemma split_ws_extends:
  "split_ws cur y \<noteq> [] \<Longrightarrow> split_ws cur (y @ b) \<noteq> []"
proof (induction y arbitrary: cur)
  case Nil
  then have "cur \<noteq> []" by (auto split: if_splits)
  then show ?case
    using split_ws_grow [of cur b "[]"] by auto
next
  case (Cons c y)
  then show ?case by (auto split: if_splits)
qed

lemma unwords_split_ws_suffix:
  "\<exists>post. unwords (split_ws cur (y @ b)) = unwords (split_ws cur y) @ post"
proof (induction y arbitrary: cur)
  case Nil
  show ?case
  proof (cases "cur = []")
    case True
    then show ?thesis by simp
  next
    case False
    then obtain v vs where "split_ws cur b = (cur @ v) # vs"
      using split_ws_grow [of cur b "[]"] by auto
    with False show ?thesis by (simp add: unwords_Cons)
  qed
next
  case (Cons c y)
  show ?case
  proof (cases "is_space c")
    case False
    then show ?thesis using Cons.IH [of "cur @ [c]"] by simp
  next
    case True
    obtain post where post: "unwords (split_ws [] (y @ b)) = unwords (split_ws [] y) @ post"
      using Cons.IH [of "[]"] by auto
    show ?thesis
    proof (cases "cur = []")
      case True
      with \<open>is_space c\<close> post show ?thesis by simp
    next
      case False
      show ?thesis
      proof (cases "split_ws [] y = []")
        case True
        with False \<open>is_space c\<close> show ?thesis by (simp add: unwords_Cons)
      next
        case more: False
        then have "split_ws [] (y @ b) \<noteq> []" by (rule split_ws_extends)
        with more False \<open>is_space c\<close> post show ?thesis by (simp add: unwords_Cons)
      qed
    qed
  qed
qed

lemma is_infix_middle: "is_infix xs (as @ xs @ bs)"
proof (induction as)
  case Nil
  show ?case
  proof (cases "xs @ bs")
    case Nil
    then show ?thesis by simp
  next
    case (Cons y ys)
    have "take (length xs) (y # ys) = xs"
      unfolding Cons [symmetric] by simp
    then show ?thesis
      unfolding append_Nil Cons is_infix.simps by (rule disjI1)
  qed
next
  case (Cons a as)
  then show ?case by simp
qed

lemma heard_when_contained:
  assumes "normalize q = normalize p"
  shows "heard p (a @ q @ b)"
proof -
  obtain pre where pre:
    "unwords (split_ws [] (map to_lower a @ map to_lower q @ map to_lower b)) =
       pre @ unwords (split_ws [] (map to_lower q @ map to_lower b))"
    using unwords_split_ws_prefix [of "[]" "map to_lower a" "map to_lower q @ map to_lower b"]
    by auto
  obtain post where post:
    "unwords (split_ws [] (map to_lower q @ map to_lower b)) =
       unwords (split_ws [] (map to_lower q)) @ post"
    using unwords_split_ws_suffix [of "[]" "map to_lower q" "map to_lower b"] by auto
  have "normalize (a @ q @ b) = pre @ normalize q @ post"
    using pre post by (simp add: normalize_def)
  then show ?thesis
    using assms is_infix_middle [of "normalize p" pre post] by (simp add: heard_def)
qed

subsection \<open>The call session\<close>

lemma step_keeps_auth_with_state:
  assumes "s_lifecycle s = ACTIVE_AUTHENTICATED \<longrightarrow> s_auth s = Authenticated"
    and "s_direction s = Outbound \<longrightarrow> s_auth s = Authenticated"
  shows "(s_lifecycle (fst (session_step p relay s e)) = ACTIVE_AUTHENTICATED \<longrightarrow>
            s_auth (fst (session_step p relay s e)) = Authenticated) \<and>
         (s_direction (fst (session_step p relay s e)) = Outbound \<longrightarrow>
            s_auth (fst (session_step p relay s e)) = Authenticated)"
  using assms
  by (cases e)
     (auto simp add: session_step_def split: direction.splits auth_state.splits)

lemma run_keeps_auth_with_state:
  assumes "s_lifecycle s = ACTIVE_AUTHENTICATED \<longrightarrow> s_auth s = Authenticated"
    and "s_direction s = Outbound \<longrightarrow> s_auth s = Authenticated"
  shows "(s_lifecycle (fold (\<lambda>e s. fst (session_step p relay s e)) events s)
            = ACTIVE_AUTHENTICATED \<longrightarrow>
          s_auth (fold (\<lambda>e s. fst (session_step p relay s e)) events s) = Authenticated) \<and>
         (s_direction (fold (\<lambda>e s. fst (session_step p relay s e)) events s) = Outbound \<longrightarrow>
          s_auth (fold (\<lambda>e s. fst (session_step p relay s e)) events s) = Authenticated)"
  using assms
proof (induction events arbitrary: s)
  case Nil
  then show ?case by simp
next
  case (Cons e events)
  show ?case
    using Cons.IH [of "fst (session_step p relay s e)"]
      step_keeps_auth_with_state [OF Cons.prems, of p relay e]
    by simp
qed

lemma session_after_auth_with_state:
  "s_lifecycle (session_after p relay d events) = ACTIVE_AUTHENTICATED \<longrightarrow>
   s_auth (session_after p relay d events) = Authenticated"
  using run_keeps_auth_with_state [of "new_session d" p relay events]
  by (simp add: session_after_def new_session_def split: direction.splits)

lemma step_stays_authenticated:
  "s_auth s = Authenticated \<Longrightarrow> s_auth (fst (session_step p relay s e)) = Authenticated"
  by (cases e) (auto simp add: session_step_def split: direction.splits auth_state.splits)

lemma run_stays_authenticated:
  "s_auth s = Authenticated \<Longrightarrow>
   s_auth (fold (\<lambda>e s. fst (session_step p relay s e)) events s) = Authenticated"
  by (induction events arbitrary: s) (simp_all add: step_stays_authenticated)

lemma step_without_forward:
  "s_lifecycle s \<noteq> ACTIVE_AUTHENTICATED \<Longrightarrow>
   a \<in> set (snd (session_step p relay s e)) \<Longrightarrow> \<not> is_forward a"
  by (cases e)
     (auto simp add: session_step_def is_forward_def
       split: direction.splits auth_state.splits if_splits)

lemma run_without_forward:
  assumes "s_lifecycle s = ACTIVE_AUTHENTICATED \<longrightarrow> s_auth s = Authenticated"
    and "s_direction s = Outbound \<longrightarrow> s_auth s = Authenticated"
    and "s_auth (fold (\<lambda>e s. fst (session_step p relay s e)) events s) = Unauthenticated"
  shows "\<forall>a\<in>set (session_actions p relay s events). \<not> is_forward a"
  using assms
proof (induction events arbitrary: s)
  case Nil
  then show ?case by simp
next
  case (Cons e events)
  have "s_auth s \<noteq> Authenticated"
    using Cons.prems(3) run_stays_authenticated [of s p relay "e # events"] by auto
  then have "s_lifecycle s \<noteq> ACTIVE_AUTHENTICATED"
    using Cons.prems(1) by blast
  then have now: "\<forall>a\<in>set (snd (session_step p relay s e)). \<not> is_forward a"
    using step_without_forward [of s _ p relay e] by blast
  have later: "\<forall>a\<in>set (session_actions p relay (fst (session_step p relay s e)) events).
      \<not> is_forward a"
    using Cons.IH [of "fst (session_step p relay s e)"]
      step_keeps_auth_with_state [OF Cons.prems(1,2), of p relay e] Cons.prems(3)
    by simp
  show ?case
    using now later by auto
qed

section \<open>Placing the call\<close>




text \<open>
  C8. The \<open>mode\<close> parameter of the tools that return at once is read and never
  used: two calls that differ only in \<open>mode\<close> (any two values, present or
  omitted) send the same request and return or throw the same.
\<close>

theorem mode_parameter_has_no_effect:
  "execute registerEnv env net (params \<lparr> cp_mode := m \<rparr>) =
     execute registerEnv env net (params \<lparr> cp_mode := m' \<rparr>) \<and>
   immediate_handler pc net (params \<lparr> cp_mode := m \<rparr>) =
     immediate_handler pc net (params \<lparr> cp_mode := m' \<rparr>)"
  by (simp add: execute_def execute_request_def immediate_handler_def immediate_request_def
      Let_def)

section \<open>Waiting for the outcome\<close>

text \<open>
  C4. Once the call is placed, the handler's whole interaction with the world is the
  request that placed the call followed by at most 60 rounds, each a timer of
  \<open>POLL_MS = 5000\<close> milliseconds and then one \<open>GET\<close> of the call's result;
  nothing else is ever sent, so nothing cancels the call. Every round starts less than
  \<open>MAX_WAIT_MS = 300000\<close> milliseconds after the loop was entered. When none of
  the polls made is terminal, the loop was left at a test that found 5 minutes or more
  gone, the handler returns the timed-out result with \<open>success: false\<close>, and when
  timers and polls take no extra time the polls made are exactly 60.
\<close>

theorem mission_tool_polls_then_gives_up:
  assumes "net (initiate_request pc params) = Resolved response"
    and "resp_ok response" and "resp_json response = Some callInfo"
    and "get_prop callInfo ''call_sid'' = Inr callSid"
    and "get_prop callInfo ''to'' = Inr to"
  shows "POLL_MS = 5000 \<and> MAX_WAIT_MS = 300000 \<and>
    req_method (poll_request pc callSid) = ''GET'' \<and>
    req_url (poll_request pc callSid) =
      [Lit ''http://localhost:'', Hole (JNum (of_nat (pc_port pc))),
       Lit ''/call/'', Hole callSid, Lit ''/result''] \<and>
    (\<exists>n\<le>60.
       fst (handler pc net world start params) =
         Fetch (initiate_request pc params) #
         concat (replicate n [Sleep POLL_MS, Fetch (poll_request pc callSid)]) \<and>
       (\<forall>i<n. clock_at world start i - start < MAX_WAIT_MS) \<and>
       ((\<forall>i<n. \<not> terminal_reply (ps_reply (world i))) \<longrightarrow>
          MAX_WAIT_MS \<le> clock_at world start n - start \<and>
          snd (handler pc net world start params) =
            Inr \<lparr> mr_success = JBool False, mr_callSid = callSid, mr_to = to,
                  mr_outcome = JStr ''Timed out waiting for call to complete (5 min)'',
                  mr_data = JObj [], mr_next_steps = JStr ''Check call logs'' \<rparr> \<and>
          ((\<forall>i. ps_late (world i) = 0 \<and> ps_fetch_ms (world i) = 0) \<longrightarrow> n = 60)))"
proof -
  have whole: "handler pc net world start params =
     (Fetch (initiate_request pc params) # fst (poll_loop pc callSid callInfo world start start 0),
      snd (poll_loop pc callSid callInfo world start start 0))"
    using assms(1-4) by (rule handler_polls)
  obtain n where n: "n \<le> 60"
    "fst (poll_loop pc callSid callInfo world start start 0) =
       concat (replicate n (round_effects pc callSid))"
    "\<forall>i<n. clock_at world start i - start < MAX_WAIT_MS"
    "(\<forall>i<n. \<not> terminal_reply (ps_reply (world i))) \<longrightarrow>
        MAX_WAIT_MS \<le> clock_at world start n - start \<and>
        snd (poll_loop pc callSid callInfo world start start 0) = timed_out callSid callInfo"
    using poll_loop_run [OF assms(5), of pc callSid world start] by blast
  have sixty: "n = 60"
    if "\<forall>i. ps_late (world i) = 0 \<and> ps_fetch_ms (world i) = 0"
      and "MAX_WAIT_MS \<le> clock_at world start n - start"
    using sixty_rounds_on_time [of world n start] that n(3) by blast
  have run: "\<exists>n\<le>60.
       fst (handler pc net world start params) =
         Fetch (initiate_request pc params) #
         concat (replicate n [Sleep POLL_MS, Fetch (poll_request pc callSid)]) \<and>
       (\<forall>i<n. clock_at world start i - start < MAX_WAIT_MS) \<and>
       ((\<forall>i<n. \<not> terminal_reply (ps_reply (world i))) \<longrightarrow>
          MAX_WAIT_MS \<le> clock_at world start n - start \<and>
          snd (handler pc net world start params) =
            Inr \<lparr> mr_success = JBool False, mr_callSid = callSid, mr_to = to,
                  mr_outcome = JStr ''Timed out waiting for call to complete (5 min)'',
                  mr_data = JObj [], mr_next_steps = JStr ''Check call logs'' \<rparr> \<and>
          ((\<forall>i. ps_late (world i) = 0 \<and> ps_fetch_ms (world i) = 0) \<longrightarrow> n = 60))"
    using n sixty by (intro exI [of _ n]) (simp add: whole timed_out_value [OF assms(5)])
  have constants: "POLL_MS = 5000" "MAX_WAIT_MS = 300000"
    by (simp_all add: POLL_MS_def MAX_WAIT_MS_def)
  have request: "req_method (poll_request pc callSid) = ''GET''"
    "req_url (poll_request pc callSid) =
      [Lit ''http://localhost:'', Hole (JNum (of_nat (pc_port pc))),
       Lit ''/call/'', Hole callSid, Lit ''/result'']"
    by (simp_all add: poll_request_def)
  show ?thesis
    by (intro conjI) (rule constants request run)+
qed

theorem mission_tool_polls_then_gives_up_witness:
  "fst (handler the_plugin (\<lambda>r. Resolved accepted) (\<lambda>k. on_time Rejected) 0 the_mission) =
     Fetch (initiate_request the_plugin the_mission) #
     concat (replicate 60 [Sleep 5000, Fetch (poll_request the_plugin (JStr ''CA1''))]) \<and>
   snd (handler the_plugin (\<lambda>r. Resolved accepted) (\<lambda>k. on_time Rejected) 0 the_mission) =
     Inr \<lparr> mr_success = JBool False, mr_callSid = JStr ''CA1'', mr_to = JStr ''+14155551234'',
           mr_outcome = JStr ''Timed out waiting for call to complete (5 min)'',
           mr_data = JObj [], mr_next_steps = JStr ''Check call logs'' \<rparr>"
proof -
  have quiet: "\<not> terminal_reply (ps_reply (on_time Rejected))"
    by (simp add: example_on_time terminal_reply_def)
  show ?thesis
    using mission_tool_polls_then_gives_up
        [of "\<lambda>r. Resolved accepted" the_plugin the_mission accepted _ "JStr ''CA1''"
          "JStr ''+14155551234''" "\<lambda>k. on_time Rejected" 0,
          OF refl example_placed]
      quiet
    by (auto simp add: example_on_time)
qed

text \<open>
  C5, as the code has it. Let round \<open>n\<close> be the first whose poll is terminal, and let
  that poll be an ok response with \<open>status: 'completed'\<close>. If every loop test up to
  round \<open>n\<close> finds less than 5 minutes gone, the handler makes exactly \<open>n + 1\<close>
  polls (it returns at that poll, not before) and returns the response's
  \<open>success\<close> and \<open>outcome\<close> as they are, its \<open>data\<close> when that is truthy
  and \<open>{}\<close> otherwise, and its \<open>next_steps\<close> when that is truthy and
  \<open>''\<close> otherwise. If a test finds the 5 minutes gone first, the handler returns
  the timed-out result instead.
\<close>

theorem completed_poll_returns_its_payload:
  assumes "net (initiate_request pc params) = Resolved response"
    and "resp_ok response" and "resp_json response = Some callInfo"
    and "get_prop callInfo ''call_sid'' = Inr callSid"
    and "get_prop callInfo ''to'' = Inr to"
    and "\<forall>i<n. \<not> terminal_reply (ps_reply (world i))"
    and "ps_reply (world n) = Resolved poll"
    and "resp_ok poll" and "resp_json poll = Some result"
    and "get_prop result ''status'' = Inr (JStr ''completed'')"
    and "get_prop result ''success'' = Inr success"
    and "get_prop result ''outcome'' = Inr outcome"
    and "get_prop result ''data'' = Inr data"
    and "get_prop result ''next_steps'' = Inr next_steps"
  shows "if \<forall>i\<le>n. clock_at world start i - start < MAX_WAIT_MS
     then handler pc net world start params =
            (Fetch (initiate_request pc params) #
               concat (replicate (Suc n) [Sleep POLL_MS, Fetch (poll_request pc callSid)]),
             Inr \<lparr> mr_success = success, mr_callSid = callSid, mr_to = to,
                   mr_outcome = outcome,
                   mr_data = (if truthy data then data else JObj []),
                   mr_next_steps = (if truthy next_steps then next_steps else JStr '''') \<rparr>)
     else snd (handler pc net world start params) =
            Inr \<lparr> mr_success = JBool False, mr_callSid = callSid, mr_to = to,
                  mr_outcome = JStr ''Timed out waiting for call to complete (5 min)'',
                  mr_data = JObj [], mr_next_steps = JStr ''Check call logs'' \<rparr>"
proof -
  have whole: "handler pc net world start params =
     (Fetch (initiate_request pc params) # fst (poll_loop pc callSid callInfo world start start 0),
      snd (poll_loop pc callSid callInfo world start start 0))"
    using assms(1-4) by (rule handler_polls)
  have "poll_round callSid callInfo (ps_reply (world n)) =
     Some \<lparr> mr_success = success, mr_callSid = callSid, mr_to = to, mr_outcome = outcome,
            mr_data = (if truthy data then data else JObj []),
            mr_next_steps = (if truthy next_steps then next_steps else JStr '''') \<rparr>"
    unfolding assms(7)
    using assms(8,9,10,5,11,12,13,14) by (rule poll_round_completed)
  then show ?thesis
    using poll_loop_first_terminal [OF assms(5,6), of callSid _ start pc]
    by (simp add: whole timed_out_value [OF assms(5)] split: if_splits)
qed

theorem completed_poll_returns_its_payload_witness:
  "handler the_plugin (\<lambda>r. Resolved accepted)
     (\<lambda>k. on_time (if k < 5 then status_only ''in_progress'' else poll_reply left_message))
     0 the_mission =
   (Fetch (initiate_request the_plugin the_mission) #
      concat (replicate 6 [Sleep 5000, Fetch (poll_request the_plugin (JStr ''CA1''))]),
    Inr \<lparr> mr_success = JBool True, mr_callSid = JStr ''CA1'', mr_to = JStr ''+14155551234'',
          mr_outcome = JStr ''left message'',
          mr_data = JObj [(''confirmed'', JBool True)],
          mr_next_steps = JStr ''none'' \<rparr>)"
proof -
  let ?world = "\<lambda>k::nat. on_time (if k < 5 then status_only ''in_progress''
                               else poll_reply left_message)"
  have before: "\<forall>i<5. \<not> terminal_reply (ps_reply (?world i))"
    by (simp add: example_on_time example_in_progress)
  have at: "ps_reply (?world 5) =
      Resolved \<lparr> resp_ok = True, resp_text = [], resp_json = Some (JObj left_message) \<rparr>"
    by (simp add: example_on_time poll_reply_def)
  have early: "\<forall>i\<le>5. clock_at ?world 0 i - 0 < MAX_WAIT_MS"
    unfolding example_clock by (auto simp add: POLL_MS_def MAX_WAIT_MS_def)
  show ?thesis
    using completed_poll_returns_its_payload
        [of "\<lambda>r. Resolved accepted" the_plugin the_mission accepted _ "JStr ''CA1''"
          "JStr ''+14155551234''" 5 ?world _ "JObj left_message",
          OF refl example_placed before at _ _ example_reads(1-5), of 0]
      early
    by (simp add: POLL_MS_def)
qed

theorem completed_poll_counterexample:
  "get_prop (JObj left_message_nulls) ''data'' = Inr JNull \<and>
   get_prop (JObj left_message_nulls) ''next_steps'' = Inr JNull \<and>
   snd (handler the_plugin (\<lambda>r. Resolved accepted)
          (\<lambda>k. on_time (poll_reply left_message_nulls)) 0 the_mission) =
     Inr \<lparr> mr_success = JBool True, mr_callSid = JStr ''CA1'', mr_to = JStr ''+14155551234'',
           mr_outcome = JStr ''left message'', mr_data = JObj [],
           mr_next_steps = JStr '''' \<rparr>"
proof -
  let ?world = "\<lambda>k. on_time (poll_reply left_message_nulls)"
  let ?callInfo = "JObj [(''success'', JBool True), (''call_sid'', JStr ''CA1''),
      (''to'', JStr ''+14155551234''), (''from'', JStr ''+14155550000''),
      (''status'', JStr ''queued'')]"
  have "poll_round (JStr ''CA1'') ?callInfo (ps_reply (?world 0)) =
     Some \<lparr> mr_success = JBool True, mr_callSid = JStr ''CA1'', mr_to = JStr ''+14155551234'',
            mr_outcome = JStr ''left message'', mr_data = JObj [],
            mr_next_steps = JStr '''' \<rparr>"
    using poll_round_completed [of _ "JObj left_message_nulls" ?callInfo _ _ _ _ _ "JStr ''CA1''",
        OF _ _ example_reads(6) example_placed(4) example_reads(7-10)]
    by (simp add: example_on_time poll_reply_def)
  then have "poll_loop the_plugin (JStr ''CA1'') ?callInfo ?world 0 0 0 =
     (round_effects the_plugin (JStr ''CA1''),
      Inr \<lparr> mr_success = JBool True, mr_callSid = JStr ''CA1'', mr_to = JStr ''+14155551234'',
            mr_outcome = JStr ''left message'', mr_data = JObj [],
            mr_next_steps = JStr '''' \<rparr>)"
    by (intro poll_loop_return) (simp_all add: MAX_WAIT_MS_def)
  then show ?thesis
    using handler_polls [of "\<lambda>r. Resolved accepted" the_plugin the_mission accepted ?callInfo
        "JStr ''CA1''" ?world 0, OF refl example_placed(1-3)]
    by (simp add: example_reads)
qed





text \<open>
  C10, as the code has it. Let round \<open>n\<close> be the first whose poll is terminal, reached
  before the 5 minutes are gone, and let that poll be an ok response with
  \<open>status\<close> \<open>failed\<close> or \<open>ended_without_result\<close>. The handler returns
  \<open>success: false\<close>, empty \<open>data\<close>, \<open>next_steps\<close>
  \<open>Retry or find alternative approach\<close>, and as \<open>outcome\<close> the response's
  \<open>reason\<close> when that is truthy and \<open>Call ended without mission result\<close>
  otherwise (also for a reason that is present and empty). The response's
  \<open>outcome\<close> is not read.
\<close>

theorem failed_poll_returns_its_reason:
  assumes "net (initiate_request pc params) = Resolved response"
    and "resp_ok response" and "resp_json response = Some callInfo"
    and "get_prop callInfo ''call_sid'' = Inr callSid"
    and "get_prop callInfo ''to'' = Inr to"
    and "\<forall>i<n. \<not> terminal_reply (ps_reply (world i))"
    and "\<forall>i\<le>n. clock_at world start i - start < MAX_WAIT_MS"
    and "ps_reply (world n) = Resolved poll"
    and "resp_ok poll" and "resp_json poll = Some result"
    and "get_prop result ''status'' = Inr status"
    and "status = JStr ''failed'' \<or> status = JStr ''ended_without_result''"
    and "get_prop result ''reason'' = Inr reason"
  shows "snd (handler pc net world start params) =
     Inr \<lparr> mr_success = JBool False, mr_callSid = callSid, mr_to = to,
           mr_outcome = (if truthy reason then reason
                         else JStr ''Call ended without mission result''),
           mr_data = JObj [],
           mr_next_steps = JStr ''Retry or find alternative approach'' \<rparr>"
proof -
  have whole: "handler pc net world start params =
     (Fetch (initiate_request pc params) # fst (poll_loop pc callSid callInfo world start start 0),
      snd (poll_loop pc callSid callInfo world start start 0))"
    using assms(1-4) by (rule handler_polls)
  have "poll_round callSid callInfo (ps_reply (world n)) =
     Some \<lparr> mr_success = JBool False, mr_callSid = callSid, mr_to = to,
            mr_outcome = (if truthy reason then reason
                          else JStr ''Call ended without mission result''),
            mr_data = JObj [],
            mr_next_steps = JStr ''Retry or find alternative approach'' \<rparr>"
    unfolding assms(8)
    using assms(9,10,11,12,5,13) by (rule poll_round_failed)
  then show ?thesis
    using poll_loop_first_terminal [OF assms(5,6), of callSid _ start pc] assms(7)
    by (simp add: whole split: if_splits)
qed

theorem failed_poll_returns_its_reason_witness:
  "snd (handler the_plugin (\<lambda>r. Resolved accepted)
          (\<lambda>k. on_time (if k < 2 then status_only ''in_progress'' else poll_reply no_answer))
          0 the_mission) =
     Inr \<lparr> mr_success = JBool False, mr_callSid = JStr ''CA1'', mr_to = JStr ''+14155551234'',
           mr_outcome = JStr ''no answer'', mr_data = JObj [],
           mr_next_steps = JStr ''Retry or find alternative approach'' \<rparr>"
proof -
  let ?world = "\<lambda>k::nat. on_time (if k < 2 then status_only ''in_progress''
                               else poll_reply no_answer)"
  have before: "\<forall>i<2. \<not> terminal_reply (ps_reply (?world i))"
    by (simp add: example_on_time example_in_progress)
  have at: "ps_reply (?world 2) =
      Resolved \<lparr> resp_ok = True, resp_text = [], resp_json = Some (JObj no_answer) \<rparr>"
    by (simp add: example_on_time poll_reply_def)
  have early: "\<forall>i\<le>2. clock_at ?world 0 i - 0 < MAX_WAIT_MS"
    unfolding example_clock by (auto simp add: POLL_MS_def MAX_WAIT_MS_def)
  show ?thesis
    using failed_poll_returns_its_reason
        [of "\<lambda>r. Resolved accepted" the_plugin the_mission accepted _ "JStr ''CA1''"
          "JStr ''+14155551234''" 2 ?world 0 _ "JObj no_answer" "JStr ''failed''"
          "JStr ''no answer''",
          OF refl example_placed before early at _ _ example_reads(11) _ example_reads(12)]
    by simp
qed

theorem failed_poll_counterexample:
  "get_prop (JObj empty_reason) ''reason'' = Inr (JStr '''') \<and>
   snd (handler the_plugin (\<lambda>r. Resolved accepted)
          (\<lambda>k. on_time (poll_reply empty_reason)) 0 the_mission) =
     Inr \<lparr> mr_success = JBool False, mr_callSid = JStr ''CA1'', mr_to = JStr ''+14155551234'',
           mr_outcome = JStr ''Call ended without mission result'', mr_data = JObj [],
           mr_next_steps = JStr ''Retry or find alternative approach'' \<rparr>"
proof -
  let ?world = "\<lambda>k. on_time (poll_reply empty_reason)"
  let ?callInfo = "JObj [(''success'', JBool True), (''call_sid'', JStr ''CA1''),
      (''to'', JStr ''+14155551234''), (''from'', JStr ''+14155550000''),
      (''status'', JStr ''queued'')]"
  let ?r = "\<lparr> mr_success = JBool False, mr_callSid = JStr ''CA1'',
           mr_to = JStr ''+14155551234'',
           mr_outcome = JStr ''Call ended without mission result'', mr_data = JObj [],
           mr_next_steps = JStr ''Retry or find alternative approach'' \<rparr>"
  have "poll_round (JStr ''CA1'') ?callInfo (ps_reply (?world 0)) = Some ?r"
    using poll_round_failed [of _ "JObj empty_reason" "JStr ''ended_without_result''"
        ?callInfo _ "JStr ''''" "JStr ''CA1''",
        OF _ _ example_reads(13) _ example_placed(4) example_reads(14)]
    by (simp add: example_on_time poll_reply_def)
  then have "poll_loop the_plugin (JStr ''CA1'') ?callInfo ?world 0 0 0 =
     (round_effects the_plugin (JStr ''CA1''), Inr ?r)"
    by (intro poll_loop_return) (simp_all add: MAX_WAIT_MS_def)
  then show ?thesis
    using handler_polls [of "\<lambda>r. Resolved accepted" the_plugin the_mission accepted ?callInfo
        "JStr ''CA1''" ?world 0, OF refl example_placed(1-3)]
    by (simp add: example_reads)
qed

section \<open>Starting the voice server\<close>

text \<open>
  C3. With no passphrase configured, \<open>onLoad\<close> is to start no voice server.
  The code starts one. \<open>configSchema\<close> accepts each of the first two
  configurations below and describes the challenge as required, with no default; yet
  with the plugin enabled and \<open>watchdog.py\<close> present, \<open>onLoad\<close> spawns the
  watchdog with \<open>SECURITY_CHALLENGE\<close> set to the empty string: when
  \<open>security.challenge\<close> is the empty string, and when \<open>security\<close> is absent
  and the environment has no \<open>SECURITY_CHALLENGE\<close>. When \<open>security\<close> is
  there without a \<open>challenge\<close>, it does the same and so writes the empty string
  over a \<open>SECURITY_CHALLENGE\<close> that the environment had.
\<close>

theorem onLoad_starts_server_without_passphrase:
  "onLoad (advancedVoicePlugin Map.empty empty_challenge_config) Map.empty
     ''/ext/advanced-voice'' ''/ext/advanced-voice/watchdog.py'' True =
     ([LogInfo ''[advanced-voice] Plugin loaded'',
       LogInfo ''[advanced-voice] Starting watchdog (tunnel + server manager)'',
       LogInfo ''[advanced-voice] Watchdog started (managing tunnel + server)''],
      Some \<lparr> sp_command = ''python3'', sp_args = [''-u'', ''/ext/advanced-voice/watchdog.py''],
             sp_cwd = ''/ext/advanced-voice'',
             sp_env = childEnv (advancedVoicePlugin Map.empty empty_challenge_config)
                        Map.empty \<rparr>) \<and>
   childEnv (advancedVoicePlugin Map.empty empty_challenge_config) Map.empty
     ''SECURITY_CHALLENGE'' = Some '''' \<and>
   onLoad (advancedVoicePlugin Map.empty env_config) Map.empty
     ''/ext/advanced-voice'' ''/ext/advanced-voice/watchdog.py'' True =
     ([LogInfo ''[advanced-voice] Plugin loaded'',
       LogInfo ''[advanced-voice] Starting watchdog (tunnel + server manager)'',
       LogInfo ''[advanced-voice] Watchdog started (managing tunnel + server)''],
      Some \<lparr> sp_command = ''python3'', sp_args = [''-u'', ''/ext/advanced-voice/watchdog.py''],
             sp_cwd = ''/ext/advanced-voice'',
             sp_env = childEnv (advancedVoicePlugin Map.empty env_config) Map.empty \<rparr>) \<and>
   childEnv (advancedVoicePlugin Map.empty env_config) Map.empty
     ''SECURITY_CHALLENGE'' = Some '''' \<and>
   snd (onLoad
          (advancedVoicePlugin [''SECURITY_CHALLENGE'' \<mapsto> ''open sesame''] no_challenge_config)
          [''SECURITY_CHALLENGE'' \<mapsto> ''open sesame'']
          ''/ext/advanced-voice'' ''/ext/advanced-voice/watchdog.py'' True) =
     Some \<lparr> sp_command = ''python3'', sp_args = [''-u'', ''/ext/advanced-voice/watchdog.py''],
            sp_cwd = ''/ext/advanced-voice'',
            sp_env = childEnv
                       (advancedVoicePlugin [''SECURITY_CHALLENGE'' \<mapsto> ''open sesame'']
                          no_challenge_config)
                       [''SECURITY_CHALLENGE'' \<mapsto> ''open sesame''] \<rparr> \<and>
   childEnv (advancedVoicePlugin [''SECURITY_CHALLENGE'' \<mapsto> ''open sesame''] no_challenge_config)
     [''SECURITY_CHALLENGE'' \<mapsto> ''open sesame''] ''SECURITY_CHALLENGE'' = Some ''''"
  by (simp add: onLoad_def plugin_enabled childEnv_challenge plugin_challenge
      empty_challenge_config_def no_challenge_config_def env_config_def or_str_def or_opt_def)

section \<open>The authentication gate and the call session\<close>

text \<open>
  C1, on the session of the specification. Take a session as any sequence of events
  has left it, with authentication state \<open>unauthenticated\<close>. A tool invocation from
  the AI leg leaves the session as it is and is answered with a capability-denied
  result and nothing else: the backend is not contacted. No event at all makes such a
  session forward to the backend, and nothing was forwarded at any earlier moment of
  the call either.
\<close>

theorem unauthenticated_session_forwards_nothing:
  assumes "s = session_after passphrase relay d events"
    and "s_auth s = Unauthenticated"
  shows "session_step passphrase relay s (ToolInvocation name args) =
           (s, [AnswerAiLeg CapabilityDenied]) \<and>
         (\<forall>e. \<forall>a\<in>set (snd (session_step passphrase relay s e)). \<not> is_forward a) \<and>
         (\<forall>a\<in>set (session_actions passphrase relay (new_session d) events). \<not> is_forward a)"
proof -
  have state: "s_lifecycle s \<noteq> ACTIVE_AUTHENTICATED"
    using assms session_after_auth_with_state [of passphrase relay d events] by auto
  then have denied: "session_step passphrase relay s (ToolInvocation name args) =
           (s, [AnswerAiLeg CapabilityDenied])"
    by (simp add: session_step_def)
  have now: "\<forall>e. \<forall>a\<in>set (snd (session_step passphrase relay s e)). \<not> is_forward a"
    using state step_without_forward [of s _ passphrase relay] by blast
  have before: "\<forall>a\<in>set (session_actions passphrase relay (new_session d) events).
      \<not> is_forward a"
    using run_without_forward [of "new_session d" passphrase relay events] assms
    by (simp add: session_after_def new_session_def split: direction.splits)
  show ?thesis
    using denied now before by blast
qed

theorem unauthenticated_session_forwards_nothing_witness:
  "session_step ''secret-phrase-xyz'' (\<lambda>name args. ToolOk JNull)
     \<lparr> s_direction = Inbound, s_lifecycle = ACTIVE_UNAUTHENTICATED,
       s_auth = Unauthenticated \<rparr>
     (ToolInvocation ''web_search'' (JObj [(''query'', JStr ''news'')])) =
   (\<lparr> s_direction = Inbound, s_lifecycle = ACTIVE_UNAUTHENTICATED, s_auth = Unauthenticated \<rparr>,
    [AnswerAiLeg CapabilityDenied])"
proof -
  have unheard: "\<not> heard ''secret-phrase-xyz'' ''Hi, I need help''"
    by code_simp
  have reached: "session_after ''secret-phrase-xyz'' (\<lambda>name args. ToolOk JNull) Inbound
      [AiLegReady, Utterance ''Hi, I need help''] =
    \<lparr> s_direction = Inbound, s_lifecycle = ACTIVE_UNAUTHENTICATED, s_auth = Unauthenticated \<rparr>"
    using unheard by (simp add: session_after_def new_session_def session_step_def gate_def)
  show ?thesis
    using unauthenticated_session_forwards_nothing
        [of _ "''secret-phrase-xyz''" "\<lambda>name args. ToolOk JNull" Inbound
          "[AiLegReady, Utterance ''Hi, I need help'']" "''web_search''"
          "JObj [(''query'', JStr ''news'')]", OF reached [symmetric]]
    by simp
qed

text \<open>
  C2, on the gate of the specification. An utterance in which the passphrase is not
  heard leaves an unauthenticated gate unauthenticated; one in which it is heard makes
  the gate authenticated from either state; an authenticated gate stays authenticated
  whatever is said later in the call. The passphrase is heard in every utterance that
  contains it, or a variant of it with the same normal form, anywhere; upper and lower
  case have the same normal form, and so have texts that differ by whitespace added to
  whitespace or at either end.
\<close>

theorem gate_authenticates_once_and_for_all:
  "(\<not> heard p u \<longrightarrow> gate p Unauthenticated u = Unauthenticated) \<and>
   (heard p u \<longrightarrow> gate p s u = Authenticated) \<and>
   gate p Authenticated u = Authenticated \<and>
   gate_after p Authenticated us = Authenticated \<and>
   (gate_after p s us = Authenticated \<longrightarrow> gate_after p s (us @ vs) = Authenticated) \<and>
   (normalize q = normalize p \<longrightarrow> heard p (a @ q @ b)) \<and>
   normalize (map to_upper p) = normalize p \<and>
   normalize (map to_lower p) = normalize p \<and>
   (is_space w \<and> (\<forall>c\<in>set ws. is_space c) \<longrightarrow>
      normalize (x @ w # ws @ y) = normalize (x @ w # y) \<and>
      normalize (ws @ p) = normalize p \<and> normalize (p @ ws) = normalize p)"
proof -
  have steps: "\<not> heard p u \<longrightarrow> gate p Unauthenticated u = Unauthenticated"
    "heard p u \<longrightarrow> gate p s u = Authenticated"
    "gate p Authenticated u = Authenticated"
    by (simp_all add: gate_def)
  have stays: "gate_after p Authenticated us = Authenticated"
    "gate_after p s us = Authenticated \<longrightarrow> gate_after p s (us @ vs) = Authenticated"
    by (simp_all add: gate_after_append gate_after_authenticated)
  have contained: "normalize q = normalize p \<longrightarrow> heard p (a @ q @ b)"
    using heard_when_contained [of q p a b] by blast
  have variants: "normalize (map to_upper p) = normalize p"
    "normalize (map to_lower p) = normalize p"
    "is_space w \<and> (\<forall>c\<in>set ws. is_space c) \<longrightarrow>
      normalize (x @ w # ws @ y) = normalize (x @ w # y) \<and>
      normalize (ws @ p) = normalize p \<and> normalize (p @ ws) = normalize p"
    using normalize_run [of w ws x y] normalize_leading [of ws p] normalize_trailing [of ws p]
    by (simp_all add: normalize_upper normalize_lower)
  show ?thesis
    by (intro conjI) (rule steps stays contained variants)+
qed

theorem gate_authenticates_once_and_for_all_witness:
  "gate ''open sesame'' Unauthenticated ''Hi, I need help'' = Unauthenticated \<and>
   gate ''open sesame'' Unauthenticated ''please OPEN   Sesame now'' = Authenticated \<and>
   gate_after ''open sesame'' Unauthenticated
     [''Hi, I need help'', ''please OPEN   Sesame now'', ''thank you''] = Authenticated"
proof -
  let ?said = "''please '' @ ''OPEN   Sesame'' @ '' now''"
  have unheard: "\<not> heard ''open sesame'' ''Hi, I need help''"
    by code_simp
  have variant: "normalize ''OPEN   Sesame'' = normalize ''open sesame''"
    by code_simp
  note first = gate_authenticates_once_and_for_all
      [of "''open sesame''" "''Hi, I need help''" Unauthenticated "[]" "[]"
        "''OPEN   Sesame''" "''please ''" "'' now''"]
  note second = gate_authenticates_once_and_for_all
      [of "''open sesame''" ?said Unauthenticated "[''Hi, I need help'', ?said]"
        "[''thank you'']" "''OPEN   Sesame''" "''please ''" "'' now''"]
  have one: "gate ''open sesame'' Unauthenticated ''Hi, I need help'' = Unauthenticated"
    using first unheard by blast
  have "heard ''open sesame'' ?said"
    using first variant by blast
  then have two: "gate ''open sesame'' Unauthenticated ?said = Authenticated"
    using second by blast
  have "gate_after ''open sesame'' Unauthenticated [''Hi, I need help'', ?said] =
      Authenticated"
    unfolding gate_after_def fold_simps comp_def one two ..
  then have three: "gate_after ''open sesame'' Unauthenticated
      ([''Hi, I need help'', ?said] @ [''thank you'']) = Authenticated"
    using second by blast
  have said: "?said = ''please OPEN   Sesame now''"
    by simp
  show ?thesis
    using one two three unfolding said by simp
qed

end
